theory Spec2Isabelle
  imports Complex_Main "HOL-Library.Sublist" "HOL-Library.Char_ord" "HOL-Library.List_Lexorder"
begin

section \<open>Tables as pandas holds them\<close>

text \<open>
  The program (\<^verbatim>\<open>app1.py\<close>) is a pandas script. A table cell, once read, is a missing value
  (\<^verbatim>\<open>NaN\<close>), a number or a text. Numbers are modelled as exact rationals: the rounding of
  binary floating point is not part of the model. Text is a list of 8-bit characters; the
  case mapping below is the ASCII one, other characters are left as they are.
\<close>

datatype cell = Null | Num rat | Str string

text \<open>
  A data frame is its column labels (after \<^verbatim>\<open>df.columns.astype(str)\<close>) and its rows, every
  row holding one cell per column (a pandas frame is rectangular). Label-based access takes
  the first column with the label: pandas answers with a single column only for a label that
  is unique in the frame.
\<close>

record frame =
  columns :: "string list"
  rows :: "cell list list"

subsection \<open>Text primitives\<close>

text \<open>\<^verbatim>\<open>x in s\<close> on two Python strings is the contiguous-substring test.\<close>

definition py_in :: "string \<Rightarrow> string \<Rightarrow> bool" where
  "py_in x s = sublist x s"

definition lower_chr :: "char \<Rightarrow> char" where
  "lower_chr c =
     (case map_of (zip ''ABCDEFGHIJKLMNOPQRSTUVWXYZ'' ''abcdefghijklmnopqrstuvwxyz'') c of
        Some d \<Rightarrow> d
      | None \<Rightarrow> c)"

definition lower :: "string \<Rightarrow> string" where
  "lower s = map lower_chr s"

text \<open>\<^verbatim>\<open>s.replace(c, "")\<close> for a one-character pattern \<open>c\<close>.\<close>

definition remove_chr :: "char \<Rightarrow> string \<Rightarrow> string" where
  "remove_chr c s = filter (\<lambda>d. d \<noteq> c) s"

text \<open>The characters \<^verbatim>\<open>str.strip()\<close> removes, within ASCII.\<close>

definition is_space :: "char \<Rightarrow> bool" where
  "is_space c = (c \<in> set [CHR 0x09, CHR 0x0A, CHR 0x0B, CHR 0x0C, CHR 0x0D,
                             CHR 0x1C, CHR 0x1D, CHR 0x1E, CHR 0x1F, CHR '' ''])"

definition strip :: "string \<Rightarrow> string" where
  "strip s = rev (dropWhile is_space (rev (dropWhile is_space s)))"

subsection \<open>Helper functions of the script\<close>

text \<open>
  \<^verbatim>\<open>df.columns.astype(str).str.lower().str.replace(" ", "").str.replace("_", "").str.replace(".", "")\<close>,
  for one label.
\<close>

definition normalize_label :: "string \<Rightarrow> string" where
  "normalize_label s =
     remove_chr (CHR ''.'') (remove_chr (CHR ''_'') (remove_chr (CHR '' '') (lower s)))"

definition normalize_columns :: "frame \<Rightarrow> frame" where
  "normalize_columns df = df\<lparr>columns := map normalize_label (columns df)\<rparr>"

definition find_column :: "frame \<Rightarrow> string list \<Rightarrow> string option" where
  "find_column df keywords = find (\<lambda>col. \<exists>k \<in> set keywords. py_in k col) (columns df)"

text \<open>
  The callers test the result with \<^verbatim>\<open>if p_id and p_amt\<close>, \<^verbatim>\<open>if not order_id_col\<close>: Python
  truthiness, under which \<^verbatim>\<open>None\<close> and the empty string are both false.
\<close>

fun truthy :: "string option \<Rightarrow> bool" where
  "truthy None = False"
| "truthy (Some c) = (c \<noteq> [])"

subsection \<open>Cells, rows and columns\<close>

text \<open>
  \<^verbatim>\<open>str(x)\<close> and \<^verbatim>\<open>astype(str)\<close> on a cell: a missing value prints as \<^verbatim>\<open>nan\<close>, a text is
  itself. How Python prints a number is a parameter \<open>fmt\<close> of the model.
\<close>

fun str_cell :: "(rat \<Rightarrow> string) \<Rightarrow> cell \<Rightarrow> string" where
  "str_cell fmt Null = ''nan''"
| "str_cell fmt (Num x) = fmt x"
| "str_cell fmt (Str s) = s"

text \<open>
  \<^verbatim>\<open>pd.to_numeric(x, errors='coerce')\<close>: \<open>None\<close> stands for \<^verbatim>\<open>NaN\<close>. How pandas reads a text as
  a number is a parameter \<open>to_num\<close> of the model.
\<close>

fun to_numeric :: "(string \<Rightarrow> rat option) \<Rightarrow> cell \<Rightarrow> rat option" where
  "to_numeric to_num Null = None"
| "to_numeric to_num (Num x) = Some x"
| "to_numeric to_num (Str s) = to_num s"

text \<open>\<^verbatim>\<open>pd.to_numeric(x, errors='coerce').fillna(0)\<close>.\<close>

definition coerce0 :: "(string \<Rightarrow> rat option) \<Rightarrow> cell \<Rightarrow> rat" where
  "coerce0 to_num v = (case to_numeric to_num v of None \<Rightarrow> 0 | Some x \<Rightarrow> x)"

text \<open>A row as \<^verbatim>\<open>df.apply(f, axis=1)\<close> hands it to \<open>f\<close>: the cells under their labels.\<close>

type_synonym row = "(string \<times> cell) list"

text \<open>\<^verbatim>\<open>row.get(c)\<close>: \<open>None\<close> when the row has no label \<open>c\<close>.\<close>

definition row_get :: "row \<Rightarrow> string \<Rightarrow> cell option" where
  "row_get r c = map_of r c"

text \<open>\<^verbatim>\<open>pd.notna\<close>: Python's \<^verbatim>\<open>None\<close> and \<^verbatim>\<open>NaN\<close> are both missing.\<close>

fun notna :: "cell option \<Rightarrow> bool" where
  "notna None = False"
| "notna (Some Null) = False"
| "notna (Some v) = True"

text \<open>The cell of a row of \<open>df\<close> under label \<open>c\<close>; a row too short reads as missing.\<close>

definition cell_of :: "string list \<Rightarrow> cell list \<Rightarrow> string \<Rightarrow> cell" where
  "cell_of cols r c = (case map_of (zip cols r) c of None \<Rightarrow> Null | Some v \<Rightarrow> v)"

definition column :: "frame \<Rightarrow> string \<Rightarrow> cell list" where
  "column df c = map (\<lambda>r. cell_of (columns df) r c) (rows df)"

text \<open>\<^verbatim>\<open>df[c] = f(df[c])\<close>, cell by cell.\<close>

fun map_first :: "string \<Rightarrow> (cell \<Rightarrow> cell) \<Rightarrow> string list \<Rightarrow> cell list \<Rightarrow> cell list" where
  "map_first c f (l # ls) (v # vs) = (if l = c then f v # vs else v # map_first c f ls vs)"
| "map_first c f ls vs = vs"

definition map_column :: "string \<Rightarrow> (cell \<Rightarrow> cell) \<Rightarrow> frame \<Rightarrow> frame" where
  "map_column c f df = df\<lparr>rows := map (map_first c f (columns df)) (rows df)\<rparr>"

text \<open>
  \<^verbatim>\<open>df.rename(columns={...})\<close>. The dictionary is written as the list of its items in source
  order; in a Python dictionary display a later item with the same key replaces the earlier.
  Labels that are not keys stay.
\<close>

definition rename_columns :: "(string \<times> string) list \<Rightarrow> frame \<Rightarrow> frame" where
  "rename_columns d df =
     df\<lparr>columns := map (\<lambda>l. case map_of (rev d) l of None \<Rightarrow> l | Some l' \<Rightarrow> l') (columns df)\<rparr>"

text \<open>\<^verbatim>\<open>df.dropna(subset=[c])\<close>: a \<^verbatim>\<open>KeyError\<close> (\<open>None\<close>) when \<open>c\<close> is not a label.\<close>

definition dropna :: "string \<Rightarrow> frame \<Rightarrow> frame option" where
  "dropna c df =
     (if c \<in> set (columns df)
      then Some (df\<lparr>rows := filter (\<lambda>r. cell_of (columns df) r c \<noteq> Null) (rows df)\<rparr>)
      else None)"

section \<open>Cost sheet\<close>

text \<open>
  Section 1 of the script, from the frame \<^verbatim>\<open>read_csv\<close>/\<^verbatim>\<open>read_excel\<close> returned. The dictionary
  \<^verbatim>\<open>pd.Series(values, index=keys).to_dict()\<close> is kept as its items in row order; a later
  item replaces an earlier one with the same key, so a lookup takes the last. The cells of the
  cost column are numbers once line 79 has run; \<open>coerce0\<close> on them only takes the number out.
\<close>

type_synonym cost_map = "(cell \<times> rat) list"

definition cost_get :: "cost_map \<Rightarrow> string \<Rightarrow> rat \<Rightarrow> rat" where
  "cost_get cm k dflt = (case map_of (rev cm) (Str k) of None \<Rightarrow> dflt | Some v \<Rightarrow> v)"

definition build_cost_map :: "(rat \<Rightarrow> string) \<Rightarrow> (string \<Rightarrow> rat option) \<Rightarrow> frame \<Rightarrow> cost_map" where
  "build_cost_map fmt to_num cost_df0 =
     (let cost_df = normalize_columns cost_df0;
          c_sku = find_column cost_df [''sku'', ''style'', ''design'', ''productid''];
          c_cost = find_column cost_df [''cost'', ''price'', ''rate'', ''amount'', ''purchase'']
      in if truthy c_sku \<and> truthy c_cost then
           (let df1 = map_column (the c_sku) (\<lambda>v. Str (lower (strip (str_cell fmt v)))) cost_df;
                df2 = map_column (the c_cost) (\<lambda>v. Num (coerce0 to_num v)) df1
            in zip (column df2 (the c_sku)) (map (coerce0 to_num) (column df2 (the c_cost))))
         else [])"

text \<open>
  \<open>uploaded_cost_sheet\<close>: \<open>None\<close> when no cost sheet was uploaded, \<open>Some None\<close> when reading it
  raised (the script reports the error and goes on with the empty dictionary).
\<close>

definition process_cost_sheet ::
  "(rat \<Rightarrow> string) \<Rightarrow> (string \<Rightarrow> rat option) \<Rightarrow> frame option option \<Rightarrow> cost_map" where
  "process_cost_sheet fmt to_num uploaded_cost_sheet =
     (case uploaded_cost_sheet of
        None \<Rightarrow> []
      | Some None \<Rightarrow> []
      | Some (Some cost_df) \<Rightarrow> build_cost_map fmt to_num cost_df)"

section \<open>Status, cost and profit of one order\<close>

definition get_final_status :: "(rat \<Rightarrow> string) \<Rightarrow> string option \<Rightarrow> row \<Rightarrow> string" where
  "get_final_status fmt order_status_col r =
     (if notna (row_get r ''payment_status'')
      then lower (str_cell fmt (the (row_get r ''payment_status'')))
      else if truthy order_status_col \<and> notna (row_get r (the order_status_col))
      then lower (str_cell fmt (the (row_get r (the order_status_col))))
      else ''unknown'')"

definition get_unit_cost ::
  "(rat \<Rightarrow> string) \<Rightarrow> cost_map \<Rightarrow> rat \<Rightarrow> string option \<Rightarrow> row \<Rightarrow> rat" where
  "get_unit_cost fmt cm fallback_product_cost order_sku_col r =
     (if \<not> truthy order_sku_col then fallback_product_cost
      else
        (let sku_val = lower (strip (str_cell fmt
                 (case row_get r (the order_sku_col) of None \<Rightarrow> Str [] | Some v \<Rightarrow> v)))
         in cost_get cm sku_val fallback_product_cost))"

definition valid_cost_statuses :: "string list" where
  "valid_cost_statuses = [''delivered'', ''exchange'', ''return'', ''customer return'']"

text \<open>
  \<open>calculate_total_cost\<close> reads \<^verbatim>\<open>row['final_status']\<close> and \<^verbatim>\<open>row['unit_cost']\<close>, the two values
  computed just before for the same row; they are passed as \<open>status\<close> and \<open>unit_cost\<close>.
  \<^verbatim>\<open>row.get('quantity', 1)\<close> is 1 when the order table has no such column.
\<close>

definition quantity :: "(string \<Rightarrow> rat option) \<Rightarrow> row \<Rightarrow> rat" where
  "quantity to_num r =
     (case to_numeric to_num (case row_get r ''quantity'' of None \<Rightarrow> Num 1 | Some v \<Rightarrow> v) of
        None \<Rightarrow> 1
      | Some qty \<Rightarrow> qty)"

definition eligible :: "string list \<Rightarrow> string \<Rightarrow> bool" where
  "eligible keywords status = (\<exists>x \<in> set keywords. py_in x status)"

definition calculate_total_cost ::
  "(string \<Rightarrow> rat option) \<Rightarrow> row \<Rightarrow> string \<Rightarrow> rat \<Rightarrow> rat" where
  "calculate_total_cost to_num r status unit_cost =
     (if eligible valid_cost_statuses status then unit_cost * quantity to_num r else 0)"

definition net_profit :: "rat \<Rightarrow> rat \<Rightarrow> rat \<Rightarrow> rat" where
  "net_profit amount product_cost packaging_cost = amount - product_cost - packaging_cost"

section \<open>Payment files\<close>

text \<open>
  Reading a workbook is not part of the script. A sheet is what \<^verbatim>\<open>pd.read_excel\<close> answers for
  it, with the first row as header (\<open>read_header0\<close>) and with the second row as header
  (\<open>read_header1\<close>, \<^verbatim>\<open>header=1\<close>); \<open>None\<close> when the call raises. A payment file is the list
  of its sheets, \<open>None\<close> when \<^verbatim>\<open>pd.ExcelFile\<close> raises.
\<close>

record sheet =
  read_header0 :: "frame option"
  read_header1 :: "frame option"

type_synonym pay_file = "sheet list option"

text \<open>
  What a sheet contributes: the rows of \<^verbatim>\<open>df[cols_to_keep]\<close> as triples of order id, amount
  and payment status, the status missing where the sheet has no status column.
\<close>

type_synonym pay_row = "string \<times> cell \<times> cell"

record pay_frame =
  has_status :: bool
  pay_rows :: "pay_row list"

datatype outcome = Raised | Skipped | Collected pay_frame

subsection \<open>The printed list of labels\<close>

text \<open>
  The header check tests \<^verbatim>\<open>"suborder" not in str(list(temp_cols))\<close>: the token is looked for in
  the printed form of the list, \<^verbatim>\<open>['a', 'b']\<close>. \<open>py_repr\<close> is Python's \<^verbatim>\<open>repr\<close> of a string
  within ASCII: quoted with \<^verbatim>\<open>'\<close>, or with \<^verbatim>\<open>"\<close> when the text has a \<^verbatim>\<open>'\<close> and no \<^verbatim>\<open>"\<close>; the
  backslash, the quote, tab, line feed and carriage return escaped with a backslash, the other
  control characters as \<^verbatim>\<open>\xhh\<close>.
\<close>

definition hex_digit :: "nat \<Rightarrow> char" where
  "hex_digit n = ''0123456789abcdef'' ! (n mod 16)"

definition repr_chr :: "char \<Rightarrow> char \<Rightarrow> string" where
  "repr_chr q c =
     (if c = CHR 0x5C then [CHR 0x5C, CHR 0x5C]
      else if c = q then [CHR 0x5C, q]
      else if c = CHR 0x09 then [CHR 0x5C, CHR ''t'']
      else if c = CHR 0x0A then [CHR 0x5C, CHR ''n'']
      else if c = CHR 0x0D then [CHR 0x5C, CHR ''r'']
      else if (of_char c :: nat) < 32 \<or> c = CHR 0x7F
      then [CHR 0x5C, CHR ''x'', hex_digit (of_char c div 16), hex_digit (of_char c)]
      else [c])"

definition py_repr :: "string \<Rightarrow> string" where
  "py_repr s =
     (let q = (if CHR 0x27 \<in> set s \<and> CHR 0x22 \<notin> set s then CHR 0x22 else CHR 0x27)
      in q # concat (map (repr_chr q) s) @ [q])"

fun join :: "string \<Rightarrow> string list \<Rightarrow> string" where
  "join sep [] = []"
| "join sep [x] = x"
| "join sep (x # y # ys) = x @ sep @ join sep (y # ys)"

definition str_list :: "string list \<Rightarrow> string" where
  "str_list xs = ''['' @ join '', '' (map py_repr xs) @ '']''"

subsection \<open>One sheet\<close>

definition temp_cols :: "frame \<Rightarrow> string list" where
  "temp_cols df = map (\<lambda>c. remove_chr (CHR '' '') (lower c)) (columns df)"

text \<open>
  The header fix. When the second read raises, \<^verbatim>\<open>except: pass\<close> leaves \<open>df\<close> as it was.
\<close>

definition header_fix :: "sheet \<Rightarrow> frame \<Rightarrow> frame" where
  "header_fix s df =
     (if \<not> py_in ''suborder'' (str_list (temp_cols df)) \<and> length (rows df) > 2
      then (case read_header1 s of Some df' \<Rightarrow> df' | None \<Rightarrow> df)
      else df)"

text \<open>\<^verbatim>\<open>df[cols_to_keep]\<close>: a \<^verbatim>\<open>KeyError\<close> (\<open>None\<close>) when one of the labels is not in the frame.\<close>

definition keep_columns :: "(rat \<Rightarrow> string) \<Rightarrow> string list \<Rightarrow> frame \<Rightarrow> pay_frame option" where
  "keep_columns fmt cols_to_keep df =
     (if set cols_to_keep \<subseteq> set (columns df)
      then Some \<lparr>has_status = ''payment_status'' \<in> set cols_to_keep,
                 pay_rows = map (\<lambda>r. (str_cell fmt (cell_of (columns df) r ''suborderno''),
                                        cell_of (columns df) r ''amount'',
                                        if ''payment_status'' \<in> set cols_to_keep
                                        then cell_of (columns df) r ''payment_status'' else Null))
                              (rows df)\<rparr>
      else None)"

text \<open>
  Lines 132 to 148 of the script, on the frame the header fix left. After the renaming the
  labels \<^verbatim>\<open>suborderno\<close>, \<^verbatim>\<open>amount\<close> and \<^verbatim>\<open>payment_status\<close> are taken to be unique in the frame.
\<close>

definition process_frame :: "(rat \<Rightarrow> string) \<Rightarrow> frame \<Rightarrow> outcome" where
  "process_frame fmt df0 =
     (let df = normalize_columns df0;
          p_id = find_column df [''suborder''];
          p_amt = find_column df [''finalsettlement'', ''settlementamount'', ''netamount''];
          p_status = find_column df [''liveorderstatus'', ''orderstatus'']
      in if truthy p_id \<and> truthy p_amt then
           (let df1 = rename_columns [(the p_id, ''suborderno''), (the p_amt, ''amount'')] df
            in case dropna ''suborderno'' df1 of
                 None \<Rightarrow> Raised
               | Some df2 \<Rightarrow>
                   (let df3 = map_column ''suborderno'' (\<lambda>v. Str (str_cell fmt v)) df2;
                        df4 = (if truthy p_status
                               then rename_columns [(the p_status, ''payment_status'')] df3
                               else df3);
                        cols_to_keep = [''suborderno'', ''amount''] @
                                       (if truthy p_status then [''payment_status''] else [])
                    in case keep_columns fmt cols_to_keep df4 of
                         None \<Rightarrow> Raised
                       | Some f \<Rightarrow> Collected f))
         else Skipped)"

definition process_sheet :: "(rat \<Rightarrow> string) \<Rightarrow> sheet \<Rightarrow> outcome" where
  "process_sheet fmt s =
     (case read_header0 s of
        None \<Rightarrow> Raised
      | Some df \<Rightarrow> if length (rows df) < 2 then Skipped else process_frame fmt (header_fix s df))"

subsection \<open>The loop over files and sheets\<close>

text \<open>
  \<open>payment_frames\<close> is the state of the loop. The \<^verbatim>\<open>try\<close> encloses the whole file: an
  exception in a sheet ends the loop over the sheets of that file (\<^verbatim>\<open>except: pass\<close>), the frames
  appended before stay.
\<close>

fun process_sheets :: "(rat \<Rightarrow> string) \<Rightarrow> sheet list \<Rightarrow> pay_frame list \<Rightarrow> pay_frame list" where
  "process_sheets fmt [] payment_frames = payment_frames"
| "process_sheets fmt (s # ss) payment_frames =
     (case process_sheet fmt s of
        Raised \<Rightarrow> payment_frames
      | Skipped \<Rightarrow> process_sheets fmt ss payment_frames
      | Collected f \<Rightarrow> process_sheets fmt ss (payment_frames @ [f]))"

fun process_files :: "(rat \<Rightarrow> string) \<Rightarrow> pay_file list \<Rightarrow> pay_frame list \<Rightarrow> pay_frame list" where
  "process_files fmt [] payment_frames = payment_frames"
| "process_files fmt (pay_file # fs) payment_frames =
     (case pay_file of
        None \<Rightarrow> process_files fmt fs payment_frames
      | Some xls \<Rightarrow> process_files fmt fs (process_sheets fmt xls payment_frames))"

section \<open>Payment summary\<close>

text \<open>\<^verbatim>\<open>pd.concat(payment_frames)\<close> with the amount column coerced.\<close>

type_synonym payment = "string \<times> rat \<times> cell"

definition all_payments :: "(string \<Rightarrow> rat option) \<Rightarrow> pay_frame list \<Rightarrow> payment list" where
  "all_payments to_num payment_frames =
     map (\<lambda>(k, a, st). (k, coerce0 to_num a, st)) (concat (map pay_rows payment_frames))"

text \<open>\<^verbatim>\<open>groupby("suborderno")["amount"].sum().reset_index()\<close>: one row per key, keys sorted.\<close>

definition amount_summary :: "payment list \<Rightarrow> (string \<times> rat) list" where
  "amount_summary ps =
     map (\<lambda>k. (k, sum_list (map (\<lambda>(k', a, st). a) (filter (\<lambda>(k', a, st). k' = k) ps))))
         (sort (remdups (map fst ps)))"

text \<open>\<^verbatim>\<open>drop_duplicates('suborderno', keep='last')\<close>.\<close>

fun drop_duplicates_last :: "payment list \<Rightarrow> payment list" where
  "drop_duplicates_last [] = []"
| "drop_duplicates_last (p # ps) =
     (if fst p \<in> fst ` set ps then drop_duplicates_last ps else p # drop_duplicates_last ps)"

definition status_summary :: "payment list \<Rightarrow> (string \<times> cell) list" where
  "status_summary ps =
     map (\<lambda>(k, a, st). (k, st)) (drop_duplicates_last (filter (\<lambda>(k, a, st). st \<noteq> Null) ps))"

text \<open>
  \<^verbatim>\<open>pd.merge(left, right, how='left')\<close> on the key: every left row once for each right row
  with its key, in the order of the right table, and once with a missing value when there is none.
\<close>

definition merge_left :: "('k \<times> 'a) list \<Rightarrow> ('k \<times> 'b) list \<Rightarrow> ('k \<times> 'a \<times> 'b option) list" where
  "merge_left left right =
     concat (map (\<lambda>(k, a).
        (case filter (\<lambda>(k', b). k' = k) right of
           [] \<Rightarrow> [(k, a, None)]
         | ms \<Rightarrow> map (\<lambda>(k', b). (k, a, Some b)) ms)) left)"

definition payment_summary :: "(string \<Rightarrow> rat option) \<Rightarrow> pay_frame list \<Rightarrow> payment list" where
  "payment_summary to_num payment_frames =
     (if payment_frames \<noteq> [] then
        (let ps = all_payments to_num payment_frames
         in if \<exists>f \<in> set payment_frames. has_status f
            then map (\<lambda>(k, a, st). (k, a, case st of None \<Rightarrow> Null | Some v \<Rightarrow> v))
                     (merge_left (amount_summary ps) (status_summary ps))
            else map (\<lambda>(k, a). (k, a, Null)) (amount_summary ps))
      else [])"

section \<open>Merge and calculation\<close>

datatype run_error = MissingUploads | MissingOrderIdColumn | KeyError string

record reconciled =
  r_order_id :: string
  r_final_status :: string
  r_amount :: rat
  r_unit_cost :: rat
  r_product_cost :: rat
  r_packaging_cost :: rat
  r_net_profit :: rat

text \<open>
  One row of \<open>final_df\<close>: the order's cells under the order table's labels, then the amount
  (\<^verbatim>\<open>fillna(0)\<close>) and the payment status of the summary row merged to it, then the computed
  columns as the script adds them.
\<close>

definition reconcile_row ::
  "(rat \<Rightarrow> string) \<Rightarrow> (string \<Rightarrow> rat option) \<Rightarrow> cost_map \<Rightarrow> rat \<Rightarrow> rat \<Rightarrow>
   string option \<Rightarrow> string option \<Rightarrow> string list \<Rightarrow> string \<times> cell list \<times> (rat \<times> cell) option \<Rightarrow>
   reconciled" where
  "reconcile_row fmt to_num cm fallback_product_cost packaging_cost order_sku_col order_status_col
     cols m =
     (case m of (k, cells, pay) \<Rightarrow>
        (let amount = (case pay of None \<Rightarrow> 0 | Some (a, st) \<Rightarrow> a);
             r0 = zip cols cells @
                  [(''amount'', Num amount),
                   (''payment_status'', case pay of None \<Rightarrow> Null | Some (a, st) \<Rightarrow> st)];
             final_status = get_final_status fmt order_status_col r0;
             r1 = r0 @ [(''final_status'', Str final_status)];
             unit_cost = get_unit_cost fmt cm fallback_product_cost order_sku_col r1;
             r2 = r1 @ [(''unit_cost'', Num unit_cost)];
             product_cost = calculate_total_cost to_num r2 final_status unit_cost
         in \<lparr>r_order_id = k, r_final_status = final_status, r_amount = amount,
             r_unit_cost = unit_cost, r_product_cost = product_cost,
             r_packaging_cost = packaging_cost,
             r_net_profit = net_profit amount product_cost packaging_cost\<rparr>))"

text \<open>
  The run behind the button, from the tables as read. Without an order-id column the script
  stops (\<^verbatim>\<open>st.stop()\<close>); an order table with a column \<^verbatim>\<open>amount\<close> of its own leaves the merged
  table without the label \<^verbatim>\<open>amount\<close> (pandas suffixes both), and the run ends in the top-level
  handler with the \<^verbatim>\<open>KeyError\<close>. The labels of the order table are taken to be unique after
  normalisation.
\<close>

definition reconcile ::
  "(rat \<Rightarrow> string) \<Rightarrow> (string \<Rightarrow> rat option) \<Rightarrow> rat \<Rightarrow> rat \<Rightarrow> frame option option \<Rightarrow>
   frame \<Rightarrow> pay_file list \<Rightarrow> run_error + reconciled list" where
  "reconcile fmt to_num fallback_product_cost packaging_cost uploaded_cost_sheet uploaded_order
     uploaded_payments =
     (if uploaded_payments = [] then Inl MissingUploads
      else
        (let cm = process_cost_sheet fmt to_num uploaded_cost_sheet;
             orders_df0 = normalize_columns uploaded_order;
             order_id_col = find_column orders_df0 [''suborder'', ''orderid'']
         in if \<not> truthy order_id_col then Inl MissingOrderIdColumn
            else
              (let orders_df = map_column (the order_id_col) (\<lambda>v. Str (str_cell fmt v)) orders_df0;
                   order_sku_col = find_column orders_df [''sku'', ''style'', ''productid''];
                   order_status_col = find_column orders_df [''orderstatus'', ''status''];
                   summary = payment_summary to_num (process_files fmt uploaded_payments []);
                   left = map (\<lambda>r. (str_cell fmt (cell_of (columns orders_df) r (the order_id_col)), r))
                              (rows orders_df);
                   final_df = merge_left left summary
               in if ''amount'' \<in> set (columns orders_df) then Inl (KeyError ''amount'')
                  else Inr (map (reconcile_row fmt to_num cm fallback_product_cost packaging_cost
                                   order_sku_col order_status_col (columns orders_df)) final_df))))"

section \<open>What the summary is specified to hold\<close>

text \<open>
  The collected payment rows, in the order of the files, of the sheets within a file and of
  the rows within a sheet. In the words of the specification, the summary holds for an order
  id the sum of the coerced amounts of the collected rows with that id (\<open>spec_order_total\<close>),
  and the status of the last collected row with that id whose status is not missing, a missing
  status when there is no such row (\<open>spec_last_status\<close>).
\<close>

definition collected :: "pay_frame list \<Rightarrow> pay_row list" where
  "collected payment_frames = concat (map pay_rows payment_frames)"

definition order_ids :: "pay_frame list \<Rightarrow> string list" where
  "order_ids payment_frames = sort (remdups (map fst (collected payment_frames)))"

definition spec_order_total :: "(string \<Rightarrow> rat option) \<Rightarrow> pay_frame list \<Rightarrow> string \<Rightarrow> rat" where
  "spec_order_total to_num payment_frames k =
     sum_list (map (\<lambda>p. coerce0 to_num (fst (snd p)))
                   (filter (\<lambda>p. fst p = k) (collected payment_frames)))"

definition status_of :: "(string \<times> 'a \<times> cell) list \<Rightarrow> string \<Rightarrow> cell" where
  "status_of ps k =
     (case filter (\<lambda>p. fst p = k \<and> snd (snd p) \<noteq> Null) ps of
        [] \<Rightarrow> Null
      | xs \<Rightarrow> snd (snd (last xs)))"

definition spec_last_status :: "pay_frame list \<Rightarrow> string \<Rightarrow> cell" where
  "spec_last_status payment_frames k = status_of (collected payment_frames) k"

text \<open>A frame without a status column carries no status.\<close>

definition status_consistent :: "pay_frame \<Rightarrow> bool" where
  "status_consistent f = (\<not> has_status f \<longrightarrow> (\<forall>p \<in> set (pay_rows f). snd (snd p) = Null))"

section \<open>Example payment sheets\<close>

definition example_sheet_a :: sheet where
  "example_sheet_a = \<lparr>read_header0 = Some \<lparr>columns = [''Sub Order No'', ''Final Settlement Amount'', ''Live Order Status''],
       rows = [[Str ''X1'', Num 120.5, Str ''Delivered''], [Str ''B2'', Str ''n/a'', Null], [Null, Num 7, Null]]\<rparr>,
     read_header1 = None\<rparr>"

definition example_sheet_b :: sheet where
  "example_sheet_b = \<lparr>read_header0 = Some \<lparr>columns = [''Net Amount'', ''sub_order_num''],
       rows = [[Num (-15), Str ''X1''], [Num 30, Str ''C3'']]\<rparr>,
     read_header1 = None\<rparr>"

definition example_sheet_c :: sheet where
  "example_sheet_c = \<lparr>read_header0 = Some \<lparr>columns = [''Sub Order No'', ''Final Settlement Amount'', ''Live Order Status''],
       rows = [[Str ''X1'', Num 1, Str ''Return''], [Str ''X1'', Num 2, Null]]\<rparr>,
     read_header1 = None\<rparr>"

section \<open>Example run\<close>

definition example_orders :: frame where
  "example_orders =
     \<lparr>columns = [''Sub Order No'', ''SKU'', ''Quantity'', ''Order Status''],
      rows = [[Str ''A1'', Str ''Shirt-Red '', Num 2, Str ''Delivered''],
              [Str ''A2'', Str ''shirt-blue'', Null, Str ''Cancelled''],
              [Str ''A3'', Null, Num 3, Str ''Exchange'']]\<rparr>"

definition example_costs :: frame where
  "example_costs =
     \<lparr>columns = [''Style SKU'', ''Purchase Cost''],
      rows = [[Str ''shirt-red'', Num 40], [Null, Num 7]]\<rparr>"

definition example_payments :: "pay_file list" where
  "example_payments =
     [Some [\<lparr>read_header0 = Some \<lparr>columns = [''Sub Order No'', ''Final Settlement Amount''],
                                     rows = [[Str ''A1'', Num 300], [Str ''Z9'', Num 1]]\<rparr>,
             read_header1 = None\<rparr>]]"

section \<open>Example sheets of the loop\<close>

definition example_fmt :: "rat \<Rightarrow> string" where
  "example_fmt x = []"

definition example_to_num :: "string \<Rightarrow> rat option" where
  "example_to_num s = None"

text \<open>A sheet whose read raises, and a sheet of notes without any payment column.\<close>

definition unreadable_sheet :: sheet where
  "unreadable_sheet = \<lparr>read_header0 = None, read_header1 = None\<rparr>"

definition notes_sheet :: sheet where
  "notes_sheet =
     \<lparr>read_header0 = Some \<lparr>columns = [''Notes''], rows = [[Str ''a''], [Str ''b''], [Str ''c'']]\<rparr>,
      read_header1 = Some \<lparr>columns = [''a''], rows = [[Str ''b''], [Str ''c'']]\<rparr>\<rparr>"

text \<open>
  A sheet with a title row above the real header and two rows below the title: read with the
  first row as header it has two data rows, read with the second row as header it has the
  payment columns.
\<close>

definition titled_frame :: frame where
  "titled_frame =
     \<lparr>columns = [''Payment Report'', ''Unnamed: 1''],
      rows = [[Str ''Sub Order No'', Str ''Final Settlement Amount''], [Str ''X1'', Num 100]]\<rparr>"

definition shifted_frame :: frame where
  "shifted_frame =
     \<lparr>columns = [''Sub Order No'', ''Final Settlement Amount''], rows = [[Str ''X1'', Num 100]]\<rparr>"

definition titled_sheet :: sheet where
  "titled_sheet = \<lparr>read_header0 = Some titled_frame, read_header1 = Some shifted_frame\<rparr>"

text \<open>The same with one more payment row.\<close>

definition titled_frame3 :: frame where
  "titled_frame3 =
     \<lparr>columns = [''Payment Report'', ''Unnamed: 1''],
      rows = [[Str ''Sub Order No'', Str ''Final Settlement Amount''], [Str ''X1'', Num 100],
              [Str ''X2'', Num 50]]\<rparr>"

definition shifted_frame3 :: frame where
  "shifted_frame3 =
     \<lparr>columns = [''Sub Order No'', ''Final Settlement Amount''],
      rows = [[Str ''X1'', Num 100], [Str ''X2'', Num 50]]\<rparr>"

definition titled_sheet3 :: sheet where
  "titled_sheet3 = \<lparr>read_header0 = Some titled_frame3, read_header1 = Some shifted_frame3\<rparr>"

section \<open>Column resolution\<close>

lemma find_column_None:
  "find_column df kws = None \<longleftrightarrow> \<not> (\<exists>c \<in> set (columns df). \<exists>k \<in> set kws. py_in k c)"
  by (auto simp: find_column_def find_None_iff)

lemma find_column_Some:
  "find_column df kws = Some c \<longleftrightarrow>
     (\<exists>i < length (columns df). columns df ! i = c \<and> (\<exists>k \<in> set kws. py_in k c) \<and>
        (\<forall>j < i. \<not> (\<exists>k \<in> set kws. py_in k (columns df ! j))))"
  by (simp add: find_column_def find_Some_iff) blast

lemma normalize_label_chars:
  "CHR '' '' \<notin> set (normalize_label s) \<and> CHR ''_'' \<notin> set (normalize_label s) \<and>
   CHR ''.'' \<notin> set (normalize_label s)"
  by (simp add: normalize_label_def remove_chr_def)

text \<open>
  Claim C7. On a frame whose labels were normalised by \<open>normalize_columns\<close> (lower case;
  spaces, underscores and periods removed; the rows untouched), \<open>find_column\<close> answers with the
  first label, in column order, that contains one of the keywords as a substring, and with
  \<open>None\<close> exactly when no label contains a keyword. It returns the label only: neither the
  keyword list nor the frame is changed by it.
\<close>

theorem find_column_first_match:
  "(let df' = normalize_columns df in
      columns df' = map normalize_label (columns df) \<and> rows df' = rows df \<and>
      (\<forall>c \<in> set (columns df'). CHR '' '' \<notin> set c \<and> CHR ''_'' \<notin> set c \<and> CHR ''.'' \<notin> set c) \<and>
      (\<forall>c. find_column df' kws = Some c \<longleftrightarrow>
         (\<exists>i < length (columns df'). columns df' ! i = c \<and> (\<exists>k \<in> set kws. py_in k c) \<and>
            (\<forall>j < i. \<not> (\<exists>k \<in> set kws. py_in k (columns df' ! j))))) \<and>
      (find_column df' kws = None \<longleftrightarrow>
         \<not> (\<exists>c \<in> set (columns df'). \<exists>k \<in> set kws. py_in k c)))"
  unfolding Let_def
  using find_column_Some [of "normalize_columns df" kws] find_column_None [of "normalize_columns df" kws]
  by (auto simp: normalize_columns_def normalize_label_chars)

theorem find_column_first_match_witness:
  "find_column (normalize_columns \<lparr>columns = [''Order Date'', ''Sub Order No'', ''Sub_Order.Id''],
                                   rows = [[Str ''d'', Str ''X1'', Num 7]]\<rparr>)
     [''suborder'', ''orderid''] = Some ''suborderno'' \<and>
   find_column (normalize_columns \<lparr>columns = [''Order Date'', ''Sub Order No'', ''Sub_Order.Id''],
                                   rows = [[Str ''d'', Str ''X1'', Num 7]]\<rparr>)
     [''sku'', ''style''] = None \<and>
   rows (normalize_columns \<lparr>columns = [''Order Date'', ''Sub Order No'', ''Sub_Order.Id''],
                            rows = [[Str ''d'', Str ''X1'', Num 7]]\<rparr>) = [[Str ''d'', Str ''X1'', Num 7]]"
proof -
  let ?df = "\<lparr>columns = [''Order Date'', ''Sub Order No'', ''Sub_Order.Id''],
              rows = [[Str ''d'', Str ''X1'', Num 7]]\<rparr>"
  let ?kws = "[''suborder'', ''orderid'']"
  have cols: "columns (normalize_columns ?df) = [''orderdate'', ''suborderno'', ''suborderid'']"
    by code_simp
  have m0: "\<not> (\<exists>k \<in> set ?kws. py_in k ''orderdate'')"
    and m1: "\<exists>k \<in> set ?kws. py_in k ''suborderno''"
    and m2: "\<not> (\<exists>c \<in> set [''orderdate'', ''suborderno'', ''suborderid'']. \<exists>k \<in> set [''sku'', ''style'']. py_in k c)"
    by code_simp+
  have "\<exists>i < length (columns (normalize_columns ?df)).
          columns (normalize_columns ?df) ! i = ''suborderno'' \<and>
          (\<exists>k \<in> set ?kws. py_in k ''suborderno'') \<and>
          (\<forall>j < i. \<not> (\<exists>k \<in> set ?kws. py_in k (columns (normalize_columns ?df) ! j)))"
    unfolding cols using m0 m1 by (intro exI [of _ 1]) (simp add: less_Suc_eq)
  with find_column_first_match [of ?df ?kws]
  have a: "find_column (normalize_columns ?df) ?kws = Some ''suborderno''"
    unfolding Let_def by blast
  from find_column_first_match [of ?df "[''sku'', ''style'']"] m2
  have b: "find_column (normalize_columns ?df) [''sku'', ''style''] = None"
    unfolding Let_def cols by blast
  from find_column_first_match [of ?df ?kws]
  have c: "rows (normalize_columns ?df) = [[Str ''d'', Str ''X1'', Num 7]]"
    unfolding Let_def by simp
  from a b c show ?thesis by blast
qed

section \<open>Cost eligibility\<close>

lemma py_in_trans: "py_in a b \<Longrightarrow> py_in b c \<Longrightarrow> py_in a c"
  unfolding py_in_def by (rule sublist_order.order.trans)

lemma return_in_customer_return: "py_in ''return'' ''customer return''"
  by (simp add: py_in_def sublist_code)

lemma eligible_without_customer_return:
  "eligible valid_cost_statuses s = eligible [''delivered'', ''exchange'', ''return''] s"
  using py_in_trans [OF return_in_customer_return, of s]
  by (auto simp: eligible_def valid_cost_statuses_def)

text \<open>
  Claim C10. The keyword \<^verbatim>\<open>customer return\<close> changes nothing: a status contains one of the four
  keywords exactly when it contains one of the first three, since every text that contains
  \<^verbatim>\<open>customer return\<close> contains \<^verbatim>\<open>return\<close>; the product cost is the one computed from the
  first three keywords alone.
\<close>

theorem customer_return_inert:
  "butlast valid_cost_statuses = [''delivered'', ''exchange'', ''return''] \<and>
   eligible valid_cost_statuses s = eligible (butlast valid_cost_statuses) s \<and>
   calculate_total_cost to_num r s unit_cost =
     (if eligible (butlast valid_cost_statuses) s then unit_cost * quantity to_num r else 0)"
  using eligible_without_customer_return [of s]
  by (simp add: calculate_total_cost_def valid_cost_statuses_def)

theorem customer_return_inert_witness:
  "eligible valid_cost_statuses ''customer return initiated'' \<and>
   eligible (butlast valid_cost_statuses) ''customer return initiated'' \<and>
   calculate_total_cost (\<lambda>s. None) [(''quantity'', Num 3)] ''customer return initiated'' 50 = 150"
proof -
  have e: "eligible [''delivered'', ''exchange'', ''return''] ''customer return initiated''"
    by (simp add: eligible_def py_in_def sublist_code)
  have q: "quantity (\<lambda>s. None) [(''quantity'', Num 3)] = 3"
    by (simp add: quantity_def row_get_def)
  show ?thesis
    using customer_return_inert [of "''customer return initiated''" "\<lambda>s. None" "[(''quantity'', Num 3)]" 50] e q
    by simp
qed


lemma quantity_final_row:
  "quantity to_num (((zip cols cells @ [(''amount'', a), (''payment_status'', st)]) @
       [(''final_status'', fs)]) @ [(''unit_cost'', uc)]) = quantity to_num (zip cols cells)"
  by (simp add: quantity_def row_get_def map_add_def split: option.splits)

text \<open>
  Claim C3. For every row of the merged table the product cost is the unit cost times the
  quantity when the final status contains \<^verbatim>\<open>delivered\<close>, \<^verbatim>\<open>exchange\<close>, \<^verbatim>\<open>return\<close> or
  \<^verbatim>\<open>customer return\<close>, and 0 otherwise; the quantity is the order's \<^verbatim>\<open>quantity\<close> cell read as a
  number, 1 when it is absent or unreadable. A status that contains several keywords, such as
  \<^verbatim>\<open>customer return initiated\<close>, is charged the unit cost times the quantity, once.
\<close>

theorem product_cost_all_or_nothing:
  "(let rec = reconcile_row fmt to_num cm fallback packaging sku_col status_col cols (k, cells, pay)
    in r_product_cost rec =
         (if py_in ''delivered'' (r_final_status rec) \<or> py_in ''exchange'' (r_final_status rec) \<or>
             py_in ''return'' (r_final_status rec) \<or> py_in ''customer return'' (r_final_status rec)
          then r_unit_cost rec * quantity to_num (zip cols cells) else 0)) \<and>
   calculate_total_cost to_num r ''customer return initiated'' unit_cost =
     unit_cost * quantity to_num r"
proof -
  have "eligible valid_cost_statuses ''customer return initiated''"
    by (simp add: eligible_def valid_cost_statuses_def py_in_def sublist_code)
  then show ?thesis
    using quantity_final_row [of to_num cols cells]
    by (simp add: reconcile_row_def Let_def calculate_total_cost_def eligible_def
        valid_cost_statuses_def)
qed



theorem product_cost_all_or_nothing_witness:
  "r_product_cost (reconcile_row (\<lambda>x. []) (\<lambda>s. None) [] 50 5 None (Some ''orderstatus'')
      [''suborderno'', ''quantity'', ''orderstatus'']
      (''A1'', [Str ''A1'', Num 2, Str ''Customer Return Initiated''], Some (200, Null))) = 100"
proof -
  let ?cols = "[''suborderno'', ''quantity'', ''orderstatus'']"
  let ?cells = "[Str ''A1'', Num 2, Str ''Customer Return Initiated'']"
  let ?rec = "reconcile_row (\<lambda>x. []) (\<lambda>s. None) [] 50 5 None (Some ''orderstatus'') ?cols
      (''A1'', ?cells, Some (200, Null))"
  have fs: "r_final_status ?rec = ''customer return initiated''"
    by (simp add: reconcile_row_def Let_def get_final_status_def row_get_def lower_def lower_chr_def)
  have uc: "r_unit_cost ?rec = 50"
    by (simp add: reconcile_row_def Let_def get_unit_cost_def)
  have q: "quantity (\<lambda>s. None) (zip ?cols ?cells) = 2"
    by (simp add: quantity_def row_get_def)
  have e: "py_in ''return'' ''customer return initiated''"
    by (simp add: py_in_def sublist_code)
  show ?thesis
    using product_cost_all_or_nothing [where fmt = "\<lambda>x. []" and to_num = "\<lambda>s. None" and cm = "[]"
        and fallback = 50 and packaging = 5 and sku_col = None and status_col = "Some ''orderstatus''"
        and cols = ?cols and k = "''A1''" and cells = ?cells and pay = "Some (200, Null)"]
      fs uc q e
    by (simp add: Let_def)
qed

section \<open>Aggregation\<close>

lemma drop_duplicates_last_filter:
  "filter (\<lambda>p. fst p = k) (drop_duplicates_last ps) =
     (case filter (\<lambda>p. fst p = k) ps of [] \<Rightarrow> [] | x # xs \<Rightarrow> [last (x # xs)])"
proof (induction ps)
  case Nil
  show ?case by simp
next
  case (Cons p ps)
  show ?case
  proof (cases "fst p \<in> fst ` set ps")
    case True
    then have "fst p = k \<Longrightarrow> filter (\<lambda>p. fst p = k) ps \<noteq> []"
      by (fastforce simp: filter_empty_conv image_iff)
    with True Cons show ?thesis
      by (auto split: list.splits)
  next
    case False
    then have "fst p = k \<Longrightarrow> filter (\<lambda>p. fst p = k) ps = []"
      by (fastforce simp: filter_empty_conv image_iff)
    with False Cons show ?thesis
      by (auto split: list.splits)
  qed
qed

lemma status_summary_filter:
  "filter (\<lambda>q. fst q = k) (status_summary ps) =
     (if filter (\<lambda>p. fst p = k \<and> snd (snd p) \<noteq> Null) ps = [] then []
      else [(k, status_of ps k)])"
proof -
  let ?nn = "filter (\<lambda>(k, a, st). st \<noteq> Null) ps"
  let ?F = "filter (\<lambda>p. fst p = k \<and> snd (snd p) \<noteq> Null) ps"
  have f: "filter (\<lambda>p. fst p = k) ?nn = ?F"
    by (induction ps) auto
  have m: "filter (\<lambda>q. fst q = k) (status_summary ps) =
        map (\<lambda>p. (fst p, snd (snd p))) (filter (\<lambda>p. fst p = k) (drop_duplicates_last ?nn))"
    by (simp add: status_summary_def filter_map comp_def case_prod_unfold)
  show ?thesis
  proof (cases ?F)
    case Nil
    then show ?thesis
      unfolding m drop_duplicates_last_filter f by simp
  next
    case (Cons x xs)
    then have "last (x # xs) \<in> set ?F"
      by (metis last_in_set list.distinct(1))
    then have k: "fst (last (x # xs)) = k" by auto
    have s: "status_of ps k = snd (snd (last (x # xs)))"
      unfolding status_of_def Cons by simp
    show ?thesis
      unfolding m drop_duplicates_last_filter f s unfolding Cons using k by simp
  qed
qed

lemma merge_left_status:
  "map (\<lambda>m. (fst m, fst (snd m), case snd (snd m) of None \<Rightarrow> Null | Some v \<Rightarrow> v))
       (merge_left left (status_summary ps)) =
   map (\<lambda>l. (fst l, snd l, status_of ps (fst l))) left"
proof (induction left)
  case Nil
  show ?case by (simp add: merge_left_def)
next
  case (Cons l left)
  obtain k a where l: "l = (k, a)" by (cases l)
  have c: "merge_left (l # left) (status_summary ps) =
        (case filter (\<lambda>q. fst q = k) (status_summary ps) of
           [] \<Rightarrow> [(k, a, None)]
         | ms \<Rightarrow> map (\<lambda>q. (k, a, Some (snd q))) ms) @ merge_left left (status_summary ps)"
    by (auto simp: merge_left_def l case_prod_unfold split: list.splits)
  show ?case
  proof (cases "filter (\<lambda>p. fst p = k \<and> snd (snd p) \<noteq> Null) ps = []")
    case True
    then have "status_of ps k = Null" by (simp add: status_of_def)
    with True Cons show ?thesis
      unfolding c status_summary_filter by (simp add: l)
  next
    case False
    with Cons show ?thesis
      unfolding c status_summary_filter by (simp add: l)
  qed
qed

lemma status_of_coerced:
  "status_of (map (\<lambda>(k, a, st). (k, h a, st)) ps) k = status_of ps k"
proof -
  let ?g = "\<lambda>(k, a, st). (k, h a, st)"
  let ?P = "\<lambda>p. fst p = k \<and> snd (snd p) \<noteq> Null"
  have f: "filter ?P (map ?g ps) = map ?g (filter ?P ps)"
    by (simp add: filter_map comp_def case_prod_unfold)
  show ?thesis
  proof (cases "filter ?P ps")
    case Nil
    then show ?thesis unfolding status_of_def f by simp
  next
    case (Cons y ys)
    have "snd (snd (last (map ?g (y # ys)))) = snd (snd (last (y # ys)))"
      by (simp only: last_map [OF list.distinct(2)]) (simp add: case_prod_unfold)
    then show ?thesis unfolding status_of_def f Cons by simp
  qed
qed

lemma all_payments_collected:
  "all_payments to_num fs = map (\<lambda>(k, a, st). (k, coerce0 to_num a, st)) (collected fs)"
  by (simp add: all_payments_def collected_def)

lemma amount_summary_all_payments:
  "amount_summary (all_payments to_num fs) =
     map (\<lambda>k. (k, spec_order_total to_num fs k)) (order_ids fs)"
proof -
  let ?g = "\<lambda>(k, a, st). (k, coerce0 to_num a, st)"
  have keys: "map fst (map ?g (collected fs)) = map fst (collected fs)"
    by (simp add: comp_def case_prod_unfold)
  have tot: "sum_list (map (\<lambda>(k', a, st). a) (filter (\<lambda>(k', a, st). k' = k) (map ?g (collected fs))))
             = spec_order_total to_num fs k" for k
    by (simp add: spec_order_total_def filter_map comp_def case_prod_unfold)
  show ?thesis
    unfolding all_payments_collected amount_summary_def keys tot order_ids_def ..
qed

lemma order_ids_Nil: "order_ids [] = []"
  by (simp add: order_ids_def collected_def)

lemma payment_summary_with_status:
  "map (\<lambda>(k, a, st). (k, a, case st of None \<Rightarrow> Null | Some v \<Rightarrow> v))
       (merge_left (amount_summary (all_payments to_num fs)) (status_summary (all_payments to_num fs)))
   = map (\<lambda>k. (k, spec_order_total to_num fs k, spec_last_status fs k)) (order_ids fs)"
proof -
  have "map (\<lambda>(k, a, st). (k, a, case st of None \<Rightarrow> Null | Some v \<Rightarrow> v))
       (merge_left (amount_summary (all_payments to_num fs)) (status_summary (all_payments to_num fs)))
     = map (\<lambda>l. (fst l, snd l, status_of (all_payments to_num fs) (fst l)))
         (amount_summary (all_payments to_num fs))"
    using merge_left_status [of "amount_summary (all_payments to_num fs)" "all_payments to_num fs"]
    by (simp add: case_prod_unfold)
  also have "\<dots> = map (\<lambda>k. (k, spec_order_total to_num fs k, spec_last_status fs k)) (order_ids fs)"
    unfolding amount_summary_all_payments
    by (simp add: comp_def spec_last_status_def all_payments_collected status_of_coerced)
  finally show ?thesis .
qed

lemma spec_last_status_no_column:
  assumes "\<forall>f \<in> set fs. \<not> has_status f \<longrightarrow> (\<forall>p \<in> set (pay_rows f). snd (snd p) = Null)"
    and "\<not> (\<exists>f \<in> set fs. has_status f)"
  shows "spec_last_status fs k = Null"
proof -
  have "\<forall>p \<in> set (collected fs). snd (snd p) = Null"
    using assms by (auto simp: collected_def)
  then have "filter (\<lambda>p. fst p = k \<and> snd (snd p) \<noteq> Null) (collected fs) = []"
    by (auto simp: filter_empty_conv)
  then show ?thesis by (simp add: spec_last_status_def status_of_def)
qed

lemma payment_summary_rows:
  assumes "\<forall>f \<in> set fs. \<not> has_status f \<longrightarrow> (\<forall>p \<in> set (pay_rows f). snd (snd p) = Null)"
  shows "payment_summary to_num fs =
           map (\<lambda>k. (k, spec_order_total to_num fs k, spec_last_status fs k)) (order_ids fs)"
proof (cases "fs = []")
  case True
  then show ?thesis by (simp add: payment_summary_def order_ids_Nil)
next
  case False
  show ?thesis
  proof (cases "\<exists>f \<in> set fs. has_status f")
    case True
    with False show ?thesis
      by (simp add: payment_summary_def Let_def payment_summary_with_status)
  next
    case no: False
    have "spec_last_status fs k = Null" for k
      using spec_last_status_no_column [OF assms no] .
    with False no show ?thesis
      by (simp add: payment_summary_def Let_def amount_summary_all_payments comp_def)
  qed
qed

lemma payment_summary_amounts:
  "map (\<lambda>p. (fst p, fst (snd p))) (payment_summary to_num fs) =
     map (\<lambda>k. (k, spec_order_total to_num fs k)) (order_ids fs)"
proof (cases "fs = []")
  case True
  then show ?thesis by (simp add: payment_summary_def order_ids_Nil)
next
  case False
  show ?thesis
  proof (cases "\<exists>f \<in> set fs. has_status f")
    case True
    with False show ?thesis
      by (simp add: payment_summary_def Let_def payment_summary_with_status comp_def)
  next
    case no: False
    with False show ?thesis
      by (simp add: payment_summary_def Let_def amount_summary_all_payments comp_def)
  qed
qed

lemma order_ids_set: "set (order_ids fs) = fst ` set (collected fs)"
  by (simp add: order_ids_def)

lemma order_ids_distinct: "distinct (order_ids fs)"
  by (simp add: order_ids_def)

section \<open>Frames the loop collects\<close>

lemma keep_columns_consistent:
  "keep_columns fmt cols df = Some f \<Longrightarrow> status_consistent f"
  by (auto simp: keep_columns_def status_consistent_def split: if_splits)

lemma process_frame_consistent:
  "process_frame fmt df = Collected f \<Longrightarrow> status_consistent f"
  by (auto simp: process_frame_def Let_def split: if_splits option.splits
      dest: keep_columns_consistent)

lemma process_sheet_consistent:
  "process_sheet fmt s = Collected f \<Longrightarrow> status_consistent f"
  by (auto simp: process_sheet_def split: option.splits if_splits
      dest: process_frame_consistent)

lemma process_sheets_consistent:
  "\<forall>f \<in> set acc. status_consistent f \<Longrightarrow>
   \<forall>f \<in> set (process_sheets fmt ss acc). status_consistent f"
proof (induction ss arbitrary: acc)
  case Nil
  then show ?case by simp
next
  case (Cons s ss)
  show ?case
  proof (cases "process_sheet fmt s")
    case Raised
    with Cons.prems show ?thesis by simp
  next
    case Skipped
    with Cons show ?thesis by simp
  next
    case (Collected f)
    then have "\<forall>g \<in> set (acc @ [f]). status_consistent g"
      using Cons.prems process_sheet_consistent by auto
    from Cons.IH [OF this] Collected show ?thesis by simp
  qed
qed

lemma process_files_consistent:
  "\<forall>f \<in> set acc. status_consistent f \<Longrightarrow>
   \<forall>f \<in> set (process_files fmt fs acc). status_consistent f"
proof (induction fs arbitrary: acc)
  case Nil
  then show ?case by simp
next
  case (Cons pf fs)
  show ?case
  proof (cases pf)
    case None
    with Cons show ?thesis by simp
  next
    case (Some xls)
    from Cons.IH [OF process_sheets_consistent [OF Cons.prems, of fmt xls]] Some
    show ?thesis by simp
  qed
qed

lemma status_of_last:
  assumes "ps = pre @ (k, a, st) # post" and "st \<noteq> Null"
    and "\<forall>p \<in> set post. fst p = k \<longrightarrow> snd (snd p) = Null"
  shows "status_of ps k = st"
proof -
  let ?P = "\<lambda>p. fst p = k \<and> snd (snd p) \<noteq> Null"
  have "filter ?P post = []"
    using assms(3) by (auto simp: filter_empty_conv)
  then have f: "filter ?P ps = filter ?P pre @ [(k, a, st)]"
    using assms(1,2) by simp
  obtain y ys where c: "filter ?P pre @ [(k, a, st)] = y # ys"
    by (cases "filter ?P pre @ [(k, a, st)]") auto
  have l: "last (y # ys) = (k, a, st)"
    unfolding c [symmetric] by (rule last_snoc)
  have "status_of ps k = snd (snd (last (y # ys)))"
    unfolding status_of_def f c by (simp only: list.case)
  also have "\<dots> = st"
    by (simp only: l snd_conv)
  finally show ?thesis .
qed

lemma status_of_none:
  assumes "\<forall>p \<in> set ps. fst p = k \<longrightarrow> snd (snd p) = Null"
  shows "status_of ps k = Null"
proof -
  have "filter (\<lambda>p. fst p = k \<and> snd (snd p) \<noteq> Null) ps = []"
    using assms by (auto simp: filter_empty_conv)
  then show ?thesis by (simp add: status_of_def)
qed

text \<open>
  Claim C1. Whatever frames were collected, the payment summary lists the order ids of the
  collected rows, each once, and gives each the sum of the amounts (read as numbers, 0 when
  unreadable) of all collected rows with that id, across the frames. Two payments of 120.50
  and -15.00 for order \<^verbatim>\<open>X1\<close>, collected from two sheets, give 105.50.
\<close>

theorem aggregated_amount_is_sum:
  "map (\<lambda>p. (fst p, fst (snd p))) (payment_summary to_num fs) =
     map (\<lambda>k. (k, spec_order_total to_num fs k)) (order_ids fs) \<and>
   distinct (order_ids fs) \<and> set (order_ids fs) = fst ` set (collected fs) \<and>
   payment_summary to_num
     [\<lparr>has_status = False, pay_rows = [(''X1'', Num 120.5, Null)]\<rparr>,
      \<lparr>has_status = False, pay_rows = [(''X1'', Num (- 15), Null)]\<rparr>] = [(''X1'', 105.5, Null)]"
proof -
  have "payment_summary to_num
     [\<lparr>has_status = False, pay_rows = [(''X1'', Num 120.5, Null)]\<rparr>,
      \<lparr>has_status = False, pay_rows = [(''X1'', Num (- 15), Null)]\<rparr>] = [(''X1'', 105.5, Null)]"
    by (simp add: payment_summary_def all_payments_def amount_summary_def coerce0_def)
  then show ?thesis
    using payment_summary_amounts [of to_num fs] order_ids_distinct [of fs] order_ids_set [of fs]
    by simp
qed

theorem aggregated_amount_is_sum_witness:
  "map (\<lambda>p. (fst p, fst (snd p)))
     (payment_summary (\<lambda>s. None)
        (process_files (\<lambda>x. []) [Some [example_sheet_a, example_sheet_b], None, Some [example_sheet_c]] [])) =
   [(''B2'', 0), (''C3'', 30), (''X1'', 108.5)]"
proof -
  let ?fs = "process_files (\<lambda>x. []) [Some [example_sheet_a, example_sheet_b], None, Some [example_sheet_c]] []"
  have "map (\<lambda>k. (k, spec_order_total (\<lambda>s. None) ?fs k)) (order_ids ?fs) =
        [(''B2'', 0), (''C3'', 30), (''X1'', 108.5)]"
    by code_simp
  with aggregated_amount_is_sum [of "\<lambda>s. None" ?fs] show ?thesis
    by simp
qed

text \<open>
  Claim C8. For the frames collected from any list of payment files, the payment summary
  gives every order id of the collected rows the status of the last collected row with that
  id whose status is not missing (rows of later sheets and files come later), and a missing
  status when all its rows have none. This holds whether or not a status column was found.
\<close>

theorem payment_status_last_non_null:
  "(let fs = process_files fmt uploaded_payments [] in
      map (\<lambda>p. (fst p, snd (snd p))) (payment_summary to_num fs) =
        map (\<lambda>k. (k, spec_last_status fs k)) (order_ids fs) \<and>
      (\<forall>k pre a st post.
          collected fs = pre @ (k, a, st) # post \<and> st \<noteq> Null \<and>
          (\<forall>p \<in> set post. fst p = k \<longrightarrow> snd (snd p) = Null) \<longrightarrow>
          spec_last_status fs k = st) \<and>
      (\<forall>k. (\<forall>p \<in> set (collected fs). fst p = k \<longrightarrow> snd (snd p) = Null) \<longrightarrow>
          spec_last_status fs k = Null))"
proof -
  let ?fs = "process_files fmt uploaded_payments []"
  have "\<forall>f \<in> set ?fs. status_consistent f"
    by (rule process_files_consistent) simp
  then have "payment_summary to_num ?fs =
      map (\<lambda>k. (k, spec_order_total to_num ?fs k, spec_last_status ?fs k)) (order_ids ?fs)"
    by (intro payment_summary_rows) (simp add: status_consistent_def)
  then have "map (\<lambda>p. (fst p, snd (snd p))) (payment_summary to_num ?fs) =
        map (\<lambda>k. (k, spec_last_status ?fs k)) (order_ids ?fs)"
    by (simp add: comp_def)
  then show ?thesis
    unfolding Let_def spec_last_status_def
    using status_of_last [of "collected ?fs"] status_of_none [of "collected ?fs"]
    by blast
qed

theorem payment_status_last_non_null_witness:
  "map (\<lambda>p. (fst p, snd (snd p)))
     (payment_summary (\<lambda>s. None)
        (process_files (\<lambda>x. []) [Some [example_sheet_a, example_sheet_b], None, Some [example_sheet_c]] [])) =
   [(''B2'', Null), (''C3'', Null), (''X1'', Str ''Return'')]"
proof -
  let ?fs = "process_files (\<lambda>x. []) [Some [example_sheet_a, example_sheet_b], None, Some [example_sheet_c]] []"
  have "map (\<lambda>k. (k, spec_last_status ?fs k)) (order_ids ?fs) =
        [(''B2'', Null), (''C3'', Null), (''X1'', Str ''Return'')]"
    by code_simp
  with payment_status_last_non_null [of "\<lambda>x. []" "[Some [example_sheet_a, example_sheet_b], None, Some [example_sheet_c]]" "\<lambda>s. None"]
  show ?thesis
    by (simp add: Let_def)
qed

section \<open>Status, unit cost and net profit\<close>

lemma find_column_nonempty:
  "find_column df kws = Some c \<Longrightarrow> [] \<notin> set kws \<Longrightarrow> c \<noteq> []"
  by (auto simp: find_column_Some py_in_def)

lemma notna_iff: "notna x \<longleftrightarrow> (\<exists>v. x = Some v \<and> v \<noteq> Null)"
  by (cases x rule: notna.cases) simp_all

lemma merge_left_distinct:
  assumes "distinct (map fst right)"
  shows "merge_left left right = map (\<lambda>l. (fst l, snd l, map_of right (fst l))) left"
proof -
  have f: "filter (\<lambda>q. fst q = k) right =
           (case map_of right k of None \<Rightarrow> [] | Some b \<Rightarrow> [(k, b)])" for k
    using assms
  proof (induction right)
    case Nil
    show ?case by simp
  next
    case (Cons q right)
    then have "fst q = k \<Longrightarrow> map_of right k = None"
      by (auto simp: map_of_eq_None_iff)
    with Cons show ?case
      by (cases q) (auto split: option.splits)
  qed
  show ?thesis
  proof (induction left)
    case Nil
    show ?case by (simp add: merge_left_def)
  next
    case (Cons l left)
    obtain k a where l: "l = (k, a)" by (cases l)
    have "merge_left (l # left) right =
          (case filter (\<lambda>q. fst q = k) right of
             [] \<Rightarrow> [(k, a, None)]
           | ms \<Rightarrow> map (\<lambda>q. (k, a, Some (snd q))) ms) @ merge_left left right"
      by (auto simp: merge_left_def l case_prod_unfold split: list.splits)
    with Cons show ?case
      unfolding f by (simp add: l split: option.splits)
  qed
qed

lemma payment_summary_keys: "map fst (payment_summary to_num fs) = order_ids fs"
proof -
  have "map fst (payment_summary to_num fs) =
        map fst (map (\<lambda>p. (fst p, fst (snd p))) (payment_summary to_num fs))"
    by (simp add: comp_def)
  also have "\<dots> = order_ids fs"
    unfolding payment_summary_amounts by (simp add: comp_def)
  finally show ?thesis .
qed

lemma reconcile_rows:
  assumes "reconcile fmt to_num fb pk cs orders pays = Inr recs" and "rec \<in> set recs"
  shows "\<exists>cm sku_col status_col cols m.
           rec = reconcile_row fmt to_num cm fb pk sku_col status_col cols m"
proof -
  from assms(1) obtain cm sku_col status_col cols final_df
    where "recs = map (reconcile_row fmt to_num cm fb pk sku_col status_col cols) final_df"
    by (auto simp: reconcile_def Let_def split: if_splits)
  with assms(2) obtain m
    where "rec = reconcile_row fmt to_num cm fb pk sku_col status_col cols m"
    by auto
  then show ?thesis by blast
qed

lemma reconcile_length:
  assumes "reconcile fmt to_num fb pk cs orders pays = Inr recs"
  shows "length recs = length (rows orders)"
proof -
  let ?summary = "payment_summary to_num (process_files fmt pays [])"
  have d: "distinct (map fst ?summary)"
    by (simp only: payment_summary_keys order_ids_distinct)
  have "length (merge_left left ?summary) = length left" for left :: "(string \<times> cell list) list"
    by (simp add: merge_left_distinct [OF d])
  with assms show ?thesis
    by (auto simp: reconcile_def Let_def normalize_columns_def map_column_def split: if_splits)
qed

text \<open>
  Claim C4. Every record of a completed run has net profit equal to its settlement amount
  minus its product cost minus its packaging cost, the packaging cost being the configured
  one; nothing keeps the result from being negative. With amount 200, unit cost 50, quantity 2,
  packaging cost 5 and the status \<^verbatim>\<open>Delivered\<close> the product cost is 100 and the net profit 95.
\<close>

theorem net_profit_invariant:
  "(\<forall>recs. reconcile fmt to_num fallback packaging cost_sheet orders pays = Inr recs \<longrightarrow>
      (\<forall>rec \<in> set recs.
          r_net_profit rec = r_amount rec - r_product_cost rec - r_packaging_cost rec \<and>
          r_packaging_cost rec = packaging)) \<and>
   (let rec = reconcile_row fmt to_num [] 50 5 None (Some ''orderstatus'')
                [''suborderno'', ''quantity'', ''orderstatus'']
                (''A1'', [Str ''A1'', Num 2, Str ''Delivered''], Some (200, Null))
    in r_amount rec = 200 \<and> r_unit_cost rec = 50 \<and> r_product_cost rec = 100 \<and>
       r_packaging_cost rec = 5 \<and> r_net_profit rec = 95)"
proof -
  have a: "r_net_profit rec = r_amount rec - r_product_cost rec - r_packaging_cost rec \<and>
           r_packaging_cost rec = packaging"
    if "reconcile fmt to_num fallback packaging cost_sheet orders pays = Inr recs"
      and "rec \<in> set recs" for recs rec
  proof -
    from reconcile_rows [OF that] obtain cm sku_col status_col cols m
      where "rec = reconcile_row fmt to_num cm fallback packaging sku_col status_col cols m"
      by blast
    then show ?thesis
      by (cases m) (simp add: reconcile_row_def Let_def net_profit_def split: prod.splits)
  qed
  have "eligible valid_cost_statuses ''delivered''"
    by (simp add: eligible_def valid_cost_statuses_def py_in_def)
  then have b: "(let rec = reconcile_row fmt to_num [] 50 5 None (Some ''orderstatus'')
                [''suborderno'', ''quantity'', ''orderstatus'']
                (''A1'', [Str ''A1'', Num 2, Str ''Delivered''], Some (200, Null))
    in r_amount rec = 200 \<and> r_unit_cost rec = 50 \<and> r_product_cost rec = 100 \<and>
       r_packaging_cost rec = 5 \<and> r_net_profit rec = 95)"
    by (simp add: reconcile_row_def Let_def get_final_status_def row_get_def lower_def
        lower_chr_def get_unit_cost_def calculate_total_cost_def quantity_def net_profit_def)
  from a b show ?thesis by blast
qed

theorem net_profit_invariant_witness:
  "reconcile (\<lambda>x. []) (\<lambda>s. None) 20 5 (Some (Some example_costs)) example_orders example_payments =
     Inr [\<lparr>r_order_id = ''A1'', r_final_status = ''delivered'', r_amount = 300, r_unit_cost = 40,
            r_product_cost = 80, r_packaging_cost = 5, r_net_profit = 215\<rparr>,
          \<lparr>r_order_id = ''A2'', r_final_status = ''cancelled'', r_amount = 0, r_unit_cost = 20,
            r_product_cost = 0, r_packaging_cost = 5, r_net_profit = - 5\<rparr>,
          \<lparr>r_order_id = ''A3'', r_final_status = ''exchange'', r_amount = 0, r_unit_cost = 7,
            r_product_cost = 21, r_packaging_cost = 5, r_net_profit = - 26\<rparr>] \<and>
   (215::rat) = 300 - 80 - 5 \<and> (- 5::rat) = 0 - 0 - 5 \<and> (- 26::rat) = 0 - 21 - 5"
proof -
  have run: "reconcile (\<lambda>x. []) (\<lambda>s. None) 20 5 (Some (Some example_costs)) example_orders example_payments =
     Inr [\<lparr>r_order_id = ''A1'', r_final_status = ''delivered'', r_amount = 300, r_unit_cost = 40,
            r_product_cost = 80, r_packaging_cost = 5, r_net_profit = 215\<rparr>,
          \<lparr>r_order_id = ''A2'', r_final_status = ''cancelled'', r_amount = 0, r_unit_cost = 20,
            r_product_cost = 0, r_packaging_cost = 5, r_net_profit = - 5\<rparr>,
          \<lparr>r_order_id = ''A3'', r_final_status = ''exchange'', r_amount = 0, r_unit_cost = 7,
            r_product_cost = 21, r_packaging_cost = 5, r_net_profit = - 26\<rparr>]"
    by code_simp
  from net_profit_invariant [of "\<lambda>x. []" "\<lambda>s. None" 20 5 "Some (Some example_costs)"
      example_orders example_payments] run
  show ?thesis by simp
qed

text \<open>
  Claim C2. The final status of an order is the payment status in lower case when the merged
  row has one; otherwise the order's own status in lower case when a status column was found
  in the order table and the order's cell there is not missing; otherwise the text
  \<^verbatim>\<open>unknown\<close>. A payment status \<^verbatim>\<open>Return\<close> beside an order status \<^verbatim>\<open>Delivered\<close> gives \<^verbatim>\<open>return\<close>.
  A completed run has one record, with its one status text, for every row of the order table.
\<close>

theorem final_status_precedence:
  "(let order_status_col = find_column orders_df [''orderstatus'', ''status''];
        status = get_final_status fmt order_status_col r
    in (\<forall>v. row_get r ''payment_status'' = Some v \<and> v \<noteq> Null \<longrightarrow>
              status = lower (str_cell fmt v)) \<and>
       (\<not> notna (row_get r ''payment_status'') \<longrightarrow>
          (\<forall>c w. order_status_col = Some c \<and> row_get r c = Some w \<and> w \<noteq> Null \<longrightarrow>
                 status = lower (str_cell fmt w)) \<and>
          (order_status_col = None \<or> \<not> notna (row_get r (the order_status_col)) \<longrightarrow>
             status = ''unknown''))) \<and>
   get_final_status fmt (Some ''orderstatus'')
     [(''orderstatus'', Str ''Delivered''), (''payment_status'', Str ''Return'')] = ''return'' \<and>
   (\<forall>recs. reconcile fmt to_num fallback packaging cost_sheet orders pays = Inr recs \<longrightarrow>
      length recs = length (rows orders))"
proof -
  let ?osc = "find_column orders_df [''orderstatus'', ''status'']"
  have ne: "c \<noteq> []" if "?osc = Some c" for c
    using find_column_nonempty [OF that] by simp
  have a: "get_final_status fmt ?osc r = lower (str_cell fmt v)"
    if "row_get r ''payment_status'' = Some v" "v \<noteq> Null" for v
    using that by (simp add: get_final_status_def notna_iff)
  have b: "get_final_status fmt ?osc r = lower (str_cell fmt w)"
    if "\<not> notna (row_get r ''payment_status'')" "?osc = Some c" "row_get r c = Some w" "w \<noteq> Null"
    for c w
    using that ne [of c] by (auto simp: get_final_status_def notna_iff)
  have c: "get_final_status fmt ?osc r = ''unknown''"
    if "\<not> notna (row_get r ''payment_status'')"
       "?osc = None \<or> \<not> notna (row_get r (the ?osc))"
    using that by (auto simp: get_final_status_def)
  have d: "get_final_status fmt (Some ''orderstatus'')
     [(''orderstatus'', Str ''Delivered''), (''payment_status'', Str ''Return'')] = ''return''"
    by (simp add: get_final_status_def row_get_def lower_def lower_chr_def)
  show ?thesis
    unfolding Let_def using a b c d reconcile_length [of fmt to_num fallback packaging cost_sheet orders pays]
    by blast
qed

theorem final_status_precedence_witness:
  "get_final_status (\<lambda>x. []) (find_column \<lparr>columns = [''suborderno'', ''orderstatus''], rows = []\<rparr>
       [''orderstatus'', ''status''])
     [(''suborderno'', Str ''A1''), (''orderstatus'', Str ''Delivered''),
      (''amount'', Num 10), (''payment_status'', Str ''RTO Complete'')] = ''rto complete'' \<and>
   get_final_status (\<lambda>x. []) (find_column \<lparr>columns = [''suborderno'', ''orderstatus''], rows = []\<rparr>
       [''orderstatus'', ''status''])
     [(''suborderno'', Str ''A1''), (''orderstatus'', Str ''Delivered''),
      (''amount'', Num 0), (''payment_status'', Null)] = ''delivered'' \<and>
   get_final_status (\<lambda>x. []) (find_column \<lparr>columns = [''suborderno'', ''orderstatus''], rows = []\<rparr>
       [''orderstatus'', ''status''])
     [(''suborderno'', Str ''A1''), (''orderstatus'', Null),
      (''amount'', Num 0), (''payment_status'', Null)] = ''unknown''"
proof -
  let ?df = "\<lparr>columns = [''suborderno'', ''orderstatus''], rows = []\<rparr>"
  let ?r1 = "[(''suborderno'', Str ''A1''), (''orderstatus'', Str ''Delivered''),
      (''amount'', Num 10), (''payment_status'', Str ''RTO Complete'')]"
  let ?r2 = "[(''suborderno'', Str ''A1''), (''orderstatus'', Str ''Delivered''),
      (''amount'', Num 0), (''payment_status'', Null)]"
  let ?r3 = "[(''suborderno'', Str ''A1''), (''orderstatus'', Null),
      (''amount'', Num 0), (''payment_status'', Null)]"
  have osc: "find_column ?df [''orderstatus'', ''status''] = Some ''orderstatus''"
    by (simp add: find_column_def py_in_def sublist_code)
  have l1: "lower ''RTO Complete'' = ''rto complete''" and l2: "lower ''Delivered'' = ''delivered''"
    by (simp_all add: lower_def lower_chr_def)
  have g1: "row_get ?r1 ''payment_status'' = Some (Str ''RTO Complete'')"
    and g2: "row_get ?r2 ''payment_status'' = Some Null"
    and g3: "row_get ?r3 ''payment_status'' = Some Null"
    and h2: "row_get ?r2 ''orderstatus'' = Some (Str ''Delivered'')"
    and h3: "row_get ?r3 ''orderstatus'' = Some Null"
    by (simp_all add: row_get_def)
  from final_status_precedence [where orders_df = ?df and fmt = "\<lambda>x. []" and r = ?r1] g1 l1
  have 1: "get_final_status (\<lambda>x. []) (find_column ?df [''orderstatus'', ''status'']) ?r1 = ''rto complete''"
    by (simp add: Let_def)
  from final_status_precedence [where orders_df = ?df and fmt = "\<lambda>x. []" and r = ?r2] g2 h2 l2 osc
  have 2: "get_final_status (\<lambda>x. []) (find_column ?df [''orderstatus'', ''status'']) ?r2 = ''delivered''"
    by (simp add: Let_def)
  from final_status_precedence [where orders_df = ?df and fmt = "\<lambda>x. []" and r = ?r3] g3 h3 osc
  have 3: "get_final_status (\<lambda>x. []) (find_column ?df [''orderstatus'', ''status'']) ?r3 = ''unknown''"
    by (simp add: Let_def)
  from 1 2 3 show ?thesis by blast
qed

lemma case_snoc_last:
  "(case xs @ [e] of [] \<Rightarrow> d | es \<Rightarrow> f (last es)) = f e"
  by (cases xs) simp_all

lemma cost_get_last:
  "cost_get cm k d = (case filter (\<lambda>e. fst e = Str k) cm of [] \<Rightarrow> d | es \<Rightarrow> snd (last es))"
proof (induction cm rule: rev_induct)
  case Nil
  show ?case by (simp add: cost_get_def)
next
  case (snoc e cm)
  show ?case
  proof (cases "fst e = Str k")
    case True
    then have m: "map_of (rev (cm @ [e])) (Str k) = Some (snd e)"
      by (cases e) simp
    have f: "filter (\<lambda>e. fst e = Str k) (cm @ [e]) = filter (\<lambda>e. fst e = Str k) cm @ [e]"
      using True by simp
    show ?thesis
      unfolding cost_get_def m f case_snoc_last by simp
  next
    case False
    then have "map_of (rev (cm @ [e])) (Str k) = map_of (rev cm) (Str k)"
      by (cases e) simp
    with False snoc show ?thesis
      by (simp add: cost_get_def)
  qed
qed

lemma cost_get_absent: "Str k \<notin> fst ` set cm \<Longrightarrow> cost_get cm k d = d"
proof -
  assume "Str k \<notin> fst ` set cm"
  then have "filter (\<lambda>e. fst e = Str k) cm = []"
    by (force simp: filter_empty_conv)
  then show ?thesis by (simp add: cost_get_last)
qed

text \<open>
  Claim C9. When a SKU column was found in the order table and the order's SKU cell is
  missing, the unit cost is looked up under the text \<^verbatim>\<open>nan\<close> (a missing cell prints as \<^verbatim>\<open>nan\<close>,
  in the order table as in the cost sheet): the order gets the fallback cost when the cost
  dictionary has no key \<^verbatim>\<open>nan\<close>, and otherwise the cost of the (last) cost-sheet entry whose
  normalised SKU is \<^verbatim>\<open>nan\<close>.
\<close>

theorem null_sku_uses_nan_key:
  "(let order_sku_col = find_column orders_df [''sku'', ''style'', ''productid'']
    in \<forall>c. order_sku_col = Some c \<and> row_get r c = Some Null \<longrightarrow>
           get_unit_cost fmt cm fallback order_sku_col r = cost_get cm ''nan'' fallback) \<and>
   lower (strip (str_cell fmt Null)) = ''nan'' \<and>
   cost_get cm ''nan'' fallback =
     (case filter (\<lambda>e. fst e = Str ''nan'') cm of [] \<Rightarrow> fallback | es \<Rightarrow> snd (last es)) \<and>
   (Str ''nan'' \<notin> fst ` set cm \<longrightarrow> cost_get cm ''nan'' fallback = fallback)"
proof -
  have n: "lower (strip (str_cell fmt Null)) = ''nan''"
    by (simp add: lower_def lower_chr_def strip_def is_space_def)
  let ?col = "find_column orders_df [''sku'', ''style'', ''productid'']"
  have "get_unit_cost fmt cm fallback ?col r = cost_get cm ''nan'' fallback"
    if "?col = Some c" "row_get r c = Some Null" for c
  proof -
    have "c \<noteq> []" using find_column_nonempty [OF that(1)] by simp
    with that n show ?thesis by (simp add: get_unit_cost_def)
  qed
  then show ?thesis
    unfolding Let_def using n cost_get_last [of cm "''nan''" fallback]
      cost_get_absent [of "''nan''" cm fallback]
    by blast
qed

theorem null_sku_uses_nan_key_witness:
  "get_unit_cost (\<lambda>x. []) (build_cost_map (\<lambda>x. []) (\<lambda>s. None) example_costs) 20
     (find_column (normalize_columns example_orders) [''sku'', ''style'', ''productid''])
     (zip (columns (normalize_columns example_orders)) [Str ''A3'', Null, Num 3, Str ''Exchange'']) = 7 \<and>
   get_unit_cost (\<lambda>x. []) [] 20
     (find_column (normalize_columns example_orders) [''sku'', ''style'', ''productid''])
     (zip (columns (normalize_columns example_orders)) [Str ''A3'', Null, Num 3, Str ''Exchange'']) = 20"
proof -
  let ?df = "normalize_columns example_orders"
  let ?r = "zip (columns ?df) [Str ''A3'', Null, Num 3, Str ''Exchange'']"
  have col: "find_column ?df [''sku'', ''style'', ''productid''] = Some ''sku''"
    by code_simp
  have cell: "row_get ?r ''sku'' = Some Null"
    by code_simp
  have cm: "build_cost_map (\<lambda>x. []) (\<lambda>s. None) example_costs = [(Str ''shirt-red'', 40), (Str ''nan'', 7)]"
    by code_simp
  have a: "cost_get [(Str ''shirt-red'', 40), (Str ''nan'', 7)] ''nan'' 20 = 7"
    using null_sku_uses_nan_key [of ?df ?r "\<lambda>x. []" "[(Str ''shirt-red'', 40), (Str ''nan'', 7)]" 20]
    by simp
  have b: "cost_get [] ''nan'' (20::rat) = 20"
    using null_sku_uses_nan_key [of ?df ?r "\<lambda>x. []" "[]" 20]
    by simp
  from null_sku_uses_nan_key [of ?df ?r "\<lambda>x. []" "[(Str ''shirt-red'', 40), (Str ''nan'', 7)]" 20]
    null_sku_uses_nan_key [of ?df ?r "\<lambda>x. []" "[]" 20] col cell a b
  show ?thesis
    unfolding cm Let_def by simp
qed

section \<open>The header check\<close>

lemma sublist_split:
  assumes "sublist w (u @ d # v)" and "d \<notin> set w"
  shows "sublist w u \<or> sublist w v"
proof -
  from assms(1) consider "sublist w u" | "sublist w (d # v)"
    | w1 w2 where "w = w1 @ w2" "suffix w1 u" "prefix w2 (d # v)"
    unfolding sublist_append by blast
  then show ?thesis
  proof cases
    case 1
    then show ?thesis by simp
  next
    case 2
    then have "prefix w (d # v) \<or> sublist w v" by (simp add: sublist_Cons_right)
    moreover have "w = []" if "prefix w (d # v)"
      using that assms(2) by (cases w) auto
    ultimately show ?thesis by auto
  next
    case 3
    have "w2 = []"
      using 3(1,3) assms(2) by (cases w2) auto
    with 3 show ?thesis by auto
  qed
qed

lemma sublist_skip:
  assumes "sublist w (d # ys)" and "w \<noteq> []" and "hd w \<noteq> d"
  shows "sublist w ys"
proof -
  from assms(1) have "prefix w (d # ys) \<or> sublist w ys" by (simp add: sublist_Cons_right)
  moreover have "\<not> prefix w (d # ys)"
    using assms(2,3) by (cases w) auto
  ultimately show ?thesis by simp
qed

lemma sublist_skip_list:
  "sublist w (e @ ys) \<Longrightarrow> w \<noteq> [] \<Longrightarrow> hd w \<notin> set e \<Longrightarrow> sublist w ys"
  by (induction e) (auto dest: sublist_skip)

lemma hex_digit_not_s: "hex_digit n \<noteq> CHR ''s''"
proof -
  have "hex_digit n \<in> set ''0123456789abcdef''"
    unfolding hex_digit_def by (rule nth_mem) simp
  then show ?thesis by auto
qed

lemma repr_chr_cases:
  assumes "q \<noteq> CHR ''s''"
  shows "repr_chr q c = [c] \<or> (\<exists>e. repr_chr q c = CHR 0x5C # e \<and> CHR ''s'' \<notin> set e)"
  using assms hex_digit_not_s hex_digit_not_s [THEN not_sym] by (simp add: repr_chr_def)

lemma prefix_repr:
  assumes "q \<noteq> CHR ''s''" and "CHR 0x5C \<notin> set w"
    and "prefix w (concat (map (repr_chr q) s))"
  shows "prefix w s"
  using assms(2,3)
proof (induction s arbitrary: w)
  case Nil
  then show ?case by simp
next
  case (Cons c s)
  show ?case
  proof (cases w)
    case Nil
    then show ?thesis by simp
  next
    case w: (Cons a w')
    from repr_chr_cases [OF assms(1), of c] show ?thesis
    proof
      assume "repr_chr q c = [c]"
      with Cons.prems w have "a = c" "prefix w' (concat (map (repr_chr q) s))"
        by auto
      moreover have "CHR 0x5C \<notin> set w'" using Cons.prems(1) w by simp
      ultimately show ?thesis using Cons.IH [of w'] w by simp
    next
      assume "\<exists>e. repr_chr q c = CHR 0x5C # e \<and> CHR ''s'' \<notin> set e"
      with Cons.prems w show ?thesis by auto
    qed
  qed
qed

lemma sublist_repr:
  assumes "q \<noteq> CHR ''s''" and "CHR 0x5C \<notin> set w" and "w \<noteq> []" and "hd w = CHR ''s''"
    and "sublist w (concat (map (repr_chr q) s))"
  shows "sublist w s"
  using assms(5)
proof (induction s)
  case Nil
  then show ?case by simp
next
  case (Cons c s)
  let ?R = "concat (map (repr_chr q) s)"
  from repr_chr_cases [OF assms(1), of c] show ?case
  proof
    assume plain: "repr_chr q c = [c]"
    with Cons.prems have "prefix w (c # ?R) \<or> sublist w ?R"
      by (simp add: sublist_Cons_right)
    then show ?thesis
    proof
      assume "prefix w (c # ?R)"
      then have "prefix w (concat (map (repr_chr q) (c # s)))"
        using plain by simp
      from prefix_repr [OF assms(1,2) this] show ?thesis by simp
    next
      assume "sublist w ?R"
      from Cons.IH [OF this] show ?thesis by (simp add: sublist_Cons_right)
    qed
  next
    assume "\<exists>e. repr_chr q c = CHR 0x5C # e \<and> CHR ''s'' \<notin> set e"
    then obtain e where e: "repr_chr q c = CHR 0x5C # e" "CHR ''s'' \<notin> set e" by blast
    with Cons.prems have "sublist w ((CHR 0x5C # e) @ ?R)" by simp
    from sublist_skip_list [OF this assms(3)] e(2) assms(4) have "sublist w ?R" by simp
    from Cons.IH [OF this] show ?thesis by (simp add: sublist_Cons_right)
  qed
qed

lemma sublist_py_repr:
  assumes "CHR 0x5C \<notin> set w" and "CHR 0x27 \<notin> set w" and "CHR 0x22 \<notin> set w"
    and "w \<noteq> []" and "hd w = CHR ''s''" and "sublist w (py_repr s)"
  shows "sublist w s"
proof -
  define q where "q = (if CHR 0x27 \<in> set s \<and> CHR 0x22 \<notin> set s then CHR 0x22 else CHR 0x27)"
  have q: "q \<notin> set w" "q \<noteq> CHR ''s''"
    using assms(2,3) by (auto simp: q_def)
  let ?X = "concat (map (repr_chr q) s)"
  have "sublist w ([] @ q # (?X @ [q]))"
    using assms(6) by (simp add: py_repr_def q_def Let_def)
  from sublist_split [OF this q(1)] assms(4) have "sublist w (?X @ q # [])" by simp
  from sublist_split [OF this q(1)] assms(4) have "sublist w ?X" by simp
  from sublist_repr [OF q(2) assms(1,4,5) this] show ?thesis .
qed

lemma sublist_join:
  assumes "w \<noteq> []" and "CHR '','' \<notin> set w" and "CHR '' '' \<notin> set w"
  shows "sublist w (join '', '' rs) \<Longrightarrow> \<exists>r \<in> set rs. sublist w r"
proof (induction "'', ''" rs rule: join.induct)
  case 1
  with assms(1) show ?case by simp
next
  case (2 x)
  then show ?case by simp
next
  case (3 x y ys)
  from 3(2) have "sublist w (x @ CHR '','' # (CHR '' '' # join '', '' (y # ys)))" by simp
  from sublist_split [OF this assms(2)] show ?case
  proof
    assume "sublist w x"
    then show ?thesis by simp
  next
    assume "sublist w (CHR '' '' # join '', '' (y # ys))"
    then have "sublist w ([] @ CHR '' '' # join '', '' (y # ys))" by simp
    from sublist_split [OF this assms(3)] assms(1) have "sublist w (join '', '' (y # ys))" by simp
    from 3(1) [OF this] show ?thesis by auto
  qed
qed

lemma suborder_in_str_list:
  assumes "py_in ''suborder'' (str_list cs)"
  shows "\<exists>c \<in> set cs. py_in ''suborder'' c"
proof -
  let ?w = "''suborder''"
  let ?J = "join '', '' (map py_repr cs)"
  have "sublist ?w ([] @ CHR ''['' # (?J @ '']''))"
    using assms by (simp add: py_in_def str_list_def)
  then have "sublist ?w [] \<or> sublist ?w (?J @ '']'')"
    by (rule sublist_split) simp
  then have "sublist ?w (?J @ CHR '']'' # [])" by simp
  then have "sublist ?w ?J \<or> sublist ?w []"
    by (rule sublist_split) simp
  then have "sublist ?w ?J" by simp
  then have "\<exists>r \<in> set (map py_repr cs). sublist ?w r"
    by (intro sublist_join) simp_all
  then obtain c where c: "c \<in> set cs" "sublist ?w (py_repr c)" by auto
  have "sublist ?w c"
    by (rule sublist_py_repr [OF _ _ _ _ _ c(2)]) simp_all
  with c(1) show ?thesis unfolding py_in_def by blast
qed

lemma sublist_filter:
  assumes "sublist w xs" and "\<forall>x \<in> set w. P x"
  shows "sublist w (filter P xs)"
proof -
  from assms(1) obtain ps ss where "xs = ps @ w @ ss" by (auto simp: sublist_def)
  moreover have "filter P w = w" using assms(2) by (simp add: filter_id_conv)
  ultimately have "filter P xs = filter P ps @ w @ filter P ss" by simp
  then show ?thesis unfolding sublist_def by blast
qed

lemma suborder_temp_normalized:
  assumes "py_in ''suborder'' (remove_chr (CHR '' '') (lower c))"
  shows "py_in ''suborder'' (normalize_label c)"
proof -
  let ?t = "remove_chr (CHR '' '') (lower c)"
  from assms have "sublist ''suborder'' ?t" by (simp add: py_in_def)
  then have "sublist ''suborder'' (filter (\<lambda>d. d \<noteq> CHR ''_'') ?t)"
    by (rule sublist_filter) simp
  then have "sublist ''suborder'' (filter (\<lambda>d. d \<noteq> CHR ''.'') (filter (\<lambda>d. d \<noteq> CHR ''_'') ?t))"
    by (rule sublist_filter) simp
  then show ?thesis
    by (simp add: py_in_def normalize_label_def remove_chr_def)
qed

lemma header_check_normalized:
  assumes "\<forall>c \<in> set (columns (normalize_columns df)). \<not> py_in ''suborder'' c"
  shows "\<not> py_in ''suborder'' (str_list (temp_cols df))"
proof
  assume "py_in ''suborder'' (str_list (temp_cols df))"
  from suborder_in_str_list [OF this] obtain c
    where "c \<in> set (columns df)" "py_in ''suborder'' (remove_chr (CHR '' '') (lower c))"
    by (auto simp: temp_cols_def)
  then have "normalize_label c \<in> set (columns (normalize_columns df))"
    "py_in ''suborder'' (normalize_label c)"
    by (auto simp: normalize_columns_def suborder_temp_normalized)
  with assms show False by blast
qed

section \<open>Isolation of sheets\<close>

lemma process_sheets_skipped:
  "process_sheet fmt s = Skipped \<Longrightarrow>
   process_sheets fmt (xs @ s # ys) acc = process_sheets fmt (xs @ ys) acc"
  by (induction xs arbitrary: acc) (auto split: outcome.splits)

lemma process_sheets_raised:
  "process_sheet fmt s = Raised \<Longrightarrow>
   process_sheets fmt (xs @ s # ys) acc = process_sheets fmt xs acc"
  by (induction xs arbitrary: acc) (auto split: outcome.splits)

lemma process_files_append:
  "process_files fmt (fs1 @ fs2) acc = process_files fmt fs2 (process_files fmt fs1 acc)"
  by (induction fs1 arbitrary: acc) (auto split: option.splits)

lemma process_files_sheets:
  "process_files fmt (fs1 @ Some xls # fs2) acc =
     process_files fmt fs2 (process_sheets fmt xls (process_files fmt fs1 acc))"
  by (simp add: process_files_append)

lemma process_sheet_unread: "read_header0 s = None \<Longrightarrow> process_sheet fmt s = Raised"
  by (simp add: process_sheet_def)

lemma process_frame_missing:
  "find_column (normalize_columns df) [''suborder''] = None \<or>
   find_column (normalize_columns df) [''finalsettlement'', ''settlementamount'', ''netamount''] = None
   \<Longrightarrow> process_frame fmt df = Skipped"
  by (auto simp: process_frame_def Let_def)

lemma process_sheet_missing:
  assumes "read_header0 s = Some df"
    and "length (rows df) < 2 \<or>
         find_column (normalize_columns (header_fix s df)) [''suborder''] = None \<or>
         find_column (normalize_columns (header_fix s df))
           [''finalsettlement'', ''settlementamount'', ''netamount''] = None"
  shows "process_sheet fmt s = Skipped"
  using assms process_frame_missing [of "header_fix s df" fmt]
  by (auto simp: process_sheet_def)

text \<open>
  Claim C5, as the code has it. A sheet that is read but has fewer than two data rows, or in
  which no order-id column or no amount column is found, is skipped: the summary is the one
  computed as if the sheet were absent, the later sheets of its file included. A sheet whose
  processing raises (for one, a sheet whose read fails) ends the loop over its file, which is
  what the \<^verbatim>\<open>try\<close> encloses: the summary is the one computed as if that sheet and the sheets
  after it in the same file were absent; the sheets before it and the other files count as
  usual.
\<close>

theorem sheet_isolation:
  "(process_sheet fmt s = Skipped \<longrightarrow>
      payment_summary to_num (process_files fmt (fs1 @ Some (xs @ s # ys) # fs2) []) =
      payment_summary to_num (process_files fmt (fs1 @ Some (xs @ ys) # fs2) [])) \<and>
   (process_sheet fmt s = Raised \<longrightarrow>
      payment_summary to_num (process_files fmt (fs1 @ Some (xs @ s # ys) # fs2) []) =
      payment_summary to_num (process_files fmt (fs1 @ Some xs # fs2) [])) \<and>
   (\<forall>df. read_header0 s = Some df \<and>
         (length (rows df) < 2 \<or>
          find_column (normalize_columns (header_fix s df)) [''suborder''] = None \<or>
          find_column (normalize_columns (header_fix s df))
            [''finalsettlement'', ''settlementamount'', ''netamount''] = None) \<longrightarrow>
         process_sheet fmt s = Skipped) \<and>
   (read_header0 s = None \<longrightarrow> process_sheet fmt s = Raised)"
  using process_sheets_skipped [of fmt s xs ys] process_sheets_raised [of fmt s xs ys]
    process_sheet_missing [of s _ fmt] process_sheet_unread [of s fmt]
  by (simp add: process_files_sheets)

theorem sheet_isolation_witness:
  "payment_summary example_to_num
     (process_files example_fmt [Some [example_sheet_a, notes_sheet, example_sheet_b]] []) =
   payment_summary example_to_num
     (process_files example_fmt [Some [example_sheet_a, example_sheet_b]] []) \<and>
   payment_summary example_to_num
     (process_files example_fmt
        [Some [example_sheet_a, unreadable_sheet, example_sheet_b], Some [example_sheet_c]] []) =
   payment_summary example_to_num
     (process_files example_fmt [Some [example_sheet_a], Some [example_sheet_c]] [])"
proof -
  have n: "process_sheet example_fmt notes_sheet = Skipped"
    by code_simp
  have u: "process_sheet example_fmt unreadable_sheet = Raised"
    by code_simp
  from sheet_isolation [of example_fmt notes_sheet example_to_num "[]" "[example_sheet_a]"
      "[example_sheet_b]" "[]"] n
  have 1: "payment_summary example_to_num
     (process_files example_fmt [Some [example_sheet_a, notes_sheet, example_sheet_b]] []) =
   payment_summary example_to_num
     (process_files example_fmt [Some [example_sheet_a, example_sheet_b]] [])"
    by simp
  from sheet_isolation [of example_fmt unreadable_sheet example_to_num "[]" "[example_sheet_a]"
      "[example_sheet_b]" "[Some [example_sheet_c]]"] u
  have 2: "payment_summary example_to_num
     (process_files example_fmt
        [Some [example_sheet_a, unreadable_sheet, example_sheet_b], Some [example_sheet_c]] []) =
   payment_summary example_to_num
     (process_files example_fmt [Some [example_sheet_a], Some [example_sheet_c]] [])"
    by simp
  from 1 2 show ?thesis by blast
qed

theorem sheet_isolation_counterexample:
  "read_header0 unreadable_sheet = None \<and>
   payment_summary example_to_num
     (process_files example_fmt [Some [unreadable_sheet, example_sheet_c]] []) = [] \<and>
   payment_summary example_to_num
     (process_files example_fmt [Some [example_sheet_c]] []) = [(''X1'', 3, Str ''Return'')] \<and>
   payment_summary example_to_num
     (process_files example_fmt [Some [unreadable_sheet, example_sheet_c]] []) \<noteq>
   payment_summary example_to_num
     (process_files example_fmt [Some [example_sheet_c]] [])"
proof -
  have a: "read_header0 unreadable_sheet = None"
    by (simp add: unreadable_sheet_def)
  have b: "payment_summary example_to_num
     (process_files example_fmt [Some [unreadable_sheet, example_sheet_c]] []) = []"
    by code_simp
  have c: "payment_summary example_to_num
     (process_files example_fmt [Some [example_sheet_c]] []) = [(''X1'', 3, Str ''Return'')]"
    by code_simp
  from a b c show ?thesis by simp
qed

section \<open>The header fallback\<close>

lemma header_fix_reread:
  assumes "length (rows df) > 2"
    and "\<forall>c \<in> set (columns (normalize_columns df)). \<not> py_in ''suborder'' c"
  shows "header_fix s df = (case read_header1 s of Some df' \<Rightarrow> df' | None \<Rightarrow> df)"
  using assms(1) header_check_normalized [OF assms(2)]
  by (simp add: header_fix_def)

text \<open>
  Claim C6, as the code has it. For a sheet with at least three data rows none of whose
  normalised labels contains \<^verbatim>\<open>suborder\<close>, the sheet is read again, once, with the second row
  as header, and the columns are resolved on that frame (on the first one when the second
  read raises); nothing is read a third time. When no order-id column or no amount column is
  found there either, the sheet is skipped and the loop goes on. A sheet with two data rows
  or fewer is never read again.
\<close>

theorem header_fallback_once:
  "(read_header0 s = Some df \<and> length (rows df) \<ge> 3 \<and>
    (\<forall>c \<in> set (columns (normalize_columns df)). \<not> py_in ''suborder'' c) \<longrightarrow>
      header_fix s df = (case read_header1 s of Some df' \<Rightarrow> df' | None \<Rightarrow> df) \<and>
      process_sheet fmt s = process_frame fmt (header_fix s df) \<and>
      (find_column (normalize_columns (header_fix s df)) [''suborder''] = None \<or>
       find_column (normalize_columns (header_fix s df))
         [''finalsettlement'', ''settlementamount'', ''netamount''] = None \<longrightarrow>
       process_sheet fmt s = Skipped)) \<and>
   (length (rows df) \<le> 2 \<longrightarrow> header_fix s df = df)"
proof -
  have main: "header_fix s df = (case read_header1 s of Some df' \<Rightarrow> df' | None \<Rightarrow> df) \<and>
      process_sheet fmt s = process_frame fmt (header_fix s df) \<and>
      (find_column (normalize_columns (header_fix s df)) [''suborder''] = None \<or>
       find_column (normalize_columns (header_fix s df))
         [''finalsettlement'', ''settlementamount'', ''netamount''] = None \<longrightarrow>
       process_sheet fmt s = Skipped)"
    if r: "read_header0 s = Some df" and l: "length (rows df) \<ge> 3"
      and n: "\<forall>c \<in> set (columns (normalize_columns df)). \<not> py_in ''suborder'' c"
  proof -
    from l have l2: "length (rows df) > 2" by simp
    have a: "header_fix s df = (case read_header1 s of Some df' \<Rightarrow> df' | None \<Rightarrow> df)"
      by (rule header_fix_reread [OF l2 n])
    have b: "process_sheet fmt s = process_frame fmt (header_fix s df)"
      using r l by (simp add: process_sheet_def)
    have c: "process_sheet fmt s = Skipped"
      if "find_column (normalize_columns (header_fix s df)) [''suborder''] = None \<or>
          find_column (normalize_columns (header_fix s df))
            [''finalsettlement'', ''settlementamount'', ''netamount''] = None"
      using process_sheet_missing [OF r, of fmt] that by blast
    from a b c show ?thesis by blast
  qed
  have two: "header_fix s df = df" if "length (rows df) \<le> 2"
    using that by (simp add: header_fix_def)
  from main two show ?thesis by blast
qed

theorem header_fallback_once_witness:
  "header_fix titled_sheet3 titled_frame3 = shifted_frame3 \<and>
   process_sheet example_fmt titled_sheet3 =
     Collected \<lparr>has_status = False,
                pay_rows = [(''X1'', Num 100, Null), (''X2'', Num 50, Null)]\<rparr> \<and>
   process_sheet example_fmt notes_sheet = Skipped"
proof -
  let ?nf = "\<lparr>columns = [''Notes''], rows = [[Str ''a''], [Str ''b''], [Str ''c'']]\<rparr>"
  have r: "read_header0 titled_sheet3 = Some titled_frame3"
    and r1: "read_header1 titled_sheet3 = Some shifted_frame3"
    by (simp_all add: titled_sheet3_def)
  have l: "length (rows titled_frame3) \<ge> 3"
    by (simp add: titled_frame3_def)
  have n: "\<forall>c \<in> set (columns (normalize_columns titled_frame3)). \<not> py_in ''suborder'' c"
    by code_simp
  have p: "process_frame example_fmt shifted_frame3 =
     Collected \<lparr>has_status = False,
                pay_rows = [(''X1'', Num 100, Null), (''X2'', Num 50, Null)]\<rparr>"
    by code_simp
  from header_fallback_once [of titled_sheet3 titled_frame3 example_fmt] r r1 l n p
  have 1: "header_fix titled_sheet3 titled_frame3 = shifted_frame3 \<and>
   process_sheet example_fmt titled_sheet3 =
     Collected \<lparr>has_status = False,
                pay_rows = [(''X1'', Num 100, Null), (''X2'', Num 50, Null)]\<rparr>"
    by simp
  have nr: "read_header0 notes_sheet = Some ?nf"
    and nr1: "read_header1 notes_sheet = Some \<lparr>columns = [''a''], rows = [[Str ''b''], [Str ''c'']]\<rparr>"
    by (simp_all add: notes_sheet_def)
  have nl: "length (rows ?nf) \<ge> 3"
    by simp
  have nn: "\<forall>c \<in> set (columns (normalize_columns ?nf)). \<not> py_in ''suborder'' c"
    by code_simp
  have nm: "find_column (normalize_columns \<lparr>columns = [''a''], rows = [[Str ''b''], [Str ''c'']]\<rparr>)
              [''suborder''] = None"
    by code_simp
  from header_fallback_once [of notes_sheet ?nf example_fmt] nr nl nn
  have hf: "header_fix notes_sheet ?nf =
              (case read_header1 notes_sheet of Some df' \<Rightarrow> df' | None \<Rightarrow> ?nf)"
    and sk: "find_column (normalize_columns (header_fix notes_sheet ?nf)) [''suborder''] = None
             \<Longrightarrow> process_sheet example_fmt notes_sheet = Skipped"
    by blast+
  have "header_fix notes_sheet ?nf = \<lparr>columns = [''a''], rows = [[Str ''b''], [Str ''c'']]\<rparr>"
    unfolding hf nr1 by simp
  with nm have "find_column (normalize_columns (header_fix notes_sheet ?nf)) [''suborder''] = None"
    by simp
  from sk [OF this] have 2: "process_sheet example_fmt notes_sheet = Skipped" .
  from 1 2 show ?thesis by blast
qed

theorem header_fallback_counterexample:
  "read_header0 titled_sheet = Some titled_frame \<and> length (rows titled_frame) = 2 \<and>
   find_column (normalize_columns titled_frame) [''suborder''] = None \<and>
   read_header1 titled_sheet = Some shifted_frame \<and> shifted_frame \<noteq> titled_frame \<and>
   header_fix titled_sheet titled_frame = titled_frame \<and>
   process_sheet example_fmt titled_sheet = Skipped \<and>
   process_frame example_fmt shifted_frame =
     Collected \<lparr>has_status = False, pay_rows = [(''X1'', Num 100, Null)]\<rparr>"
proof -
  have a: "read_header0 titled_sheet = Some titled_frame"
    and b: "read_header1 titled_sheet = Some shifted_frame"
    by (simp_all add: titled_sheet_def)
  have c: "length (rows titled_frame) = 2"
    by (simp add: titled_frame_def)
  have d: "find_column (normalize_columns titled_frame) [''suborder''] = None"
    by code_simp
  have e: "shifted_frame \<noteq> titled_frame"
    by (simp add: shifted_frame_def titled_frame_def)
  have f: "header_fix titled_sheet titled_frame = titled_frame"
    using c by (simp add: header_fix_def)
  have g: "process_sheet example_fmt titled_sheet = Skipped"
    by code_simp
  have h: "process_frame example_fmt shifted_frame =
     Collected \<lparr>has_status = False, pay_rows = [(''X1'', Num 100, Null)]\<rparr>"
    by code_simp
  from a b c d e f g h show ?thesis by blast
qed

end
